theory Spec2Isabelle
  imports Main
begin

section \<open>Python values shared by the modules\<close>

text \<open>
  Exceptions of the Python runtime, of the HTTP client and of the database library that
  the modelled code can raise.  \<open>TransportError\<close> stands for every exception of the HTTP
  client (connection refused, read time-out, broken stream); its argument is the text of the
  exception.  \<open>OperationalError\<close> is \<open>sqlite3.OperationalError\<close>.
\<close>

datatype py_exn =
    KeyError string
  | ValueError
  | TypeError
  | AttributeError
  | StopIteration
  | RuntimeError
  | RecursionError
  | TransportError string
  | OperationalError

section \<open>model\_router.py\<close>

subsection \<open>TaskType\<close>

datatype TaskType = CODE | RESEARCH | PLANNING | QUICK | GENERAL

fun TaskType_value :: "TaskType \<Rightarrow> string" where
  "TaskType_value CODE = ''code''"
| "TaskType_value RESEARCH = ''research''"
| "TaskType_value PLANNING = ''planning''"
| "TaskType_value QUICK = ''quick''"
| "TaskType_value GENERAL = ''general''"

text \<open>Iterating over the enum class yields its members in declaration order.\<close>

definition all_task_types :: "TaskType list" where
  "all_task_types = [CODE, RESEARCH, PLANNING, QUICK, GENERAL]"

subsection \<open>The fragment of Python's regular expressions used by the intent patterns\<close>

text \<open>
  Queries are ASCII strings.  \<open>\w\<close> is a letter, a digit or the underscore, \<open>.\<close> is any
  character but the newline, \<open>str.lower\<close> maps \<open>A\<close>..\<open>Z\<close> to \<open>a\<close>..\<open>z\<close>.
\<close>

definition is_word_char :: "char \<Rightarrow> bool" where
  "is_word_char c =
     (let n = (of_char c :: int)
      in (48 \<le> n \<and> n \<le> 57) \<or> (65 \<le> n \<and> n \<le> 90) \<or> n = 95 \<or> (97 \<le> n \<and> n \<le> 122))"

definition lower_char :: "char \<Rightarrow> char" where
  "lower_char c =
     (let n = (of_char c :: int) in if 65 \<le> n \<and> n \<le> 90 then char_of (n + 32) else c)"

definition str_lower :: "string \<Rightarrow> string" where
  "str_lower s = map lower_char s"

datatype cclass = AnyChar | WordChar

fun in_class :: "cclass \<Rightarrow> char \<Rightarrow> bool" where
  "in_class AnyChar c = (c \<noteq> CHR 0x0A)"
| "in_class WordChar c = is_word_char c"

text \<open>
  \<open>Lit w\<close> is a literal, \<open>Rep c m None\<close> is \<open>c{m,}\<close> (so \<open>c*\<close> is \<open>Rep c 0 None\<close>),
  \<open>Rep c m (Some n)\<close> is \<open>c{m,n}\<close>, \<open>WordBoundary\<close> is \<open>\b\<close>, \<open>StartAnchor\<close> is \<open>^\<close>,
  \<open>EndAnchor\<close> is \<open>$\<close>.
\<close>

datatype regex =
    Lit string
  | Rep cclass nat "nat option"
  | WordBoundary
  | StartAnchor
  | EndAnchor
  | Alt "regex list"
  | Seq "regex list"

text \<open>
  A cursor into the subject string: the character just before the position (\<open>None\<close> at the
  start of the string) and the rest of the string from the position on.
\<close>

type_synonym cursor = "char option \<times> string"

fun word_boundary :: "cursor \<Rightarrow> bool" where
  "word_boundary (prev, rest) =
     ((case prev of None \<Rightarrow> False | Some c \<Rightarrow> is_word_char c)
      \<noteq> (case rest of [] \<Rightarrow> False | c # cs \<Rightarrow> is_word_char c))"

text \<open>\<open>$\<close> matches at the end of the string and just before a newline that ends the string.\<close>

fun end_anchor :: "cursor \<Rightarrow> bool" where
  "end_anchor (prev, rest) = (rest = [] \<or> rest = [CHR 0x0A])"

text \<open>A literal, compared character by character under \<open>re.IGNORECASE\<close>.\<close>

fun lit :: "string \<Rightarrow> cursor \<Rightarrow> cursor list" where
  "lit [] cur = [cur]"
| "lit (a # w) (prev, []) = []"
| "lit (a # w) (prev, c # cs) =
     (if lower_char a = lower_char c then lit w (Some c, cs) else [])"

text \<open>Between \<open>m\<close> and \<open>bound\<close> characters of the class (no upper bound when \<open>None\<close>).\<close>

fun rep :: "cclass \<Rightarrow> nat \<Rightarrow> nat option \<Rightarrow> cursor \<Rightarrow> cursor list" where
  "rep c m bound (prev, []) = (if m = 0 then [(prev, [])] else [])"
| "rep c m bound (prev, x # xs) =
     (if m = 0 then [(prev, x # xs)] else []) @
     (if in_class c x \<and> bound \<noteq> Some 0
      then rep c (m - 1) (map_option (\<lambda>n. n - 1) bound) (Some x, xs) else [])"

text \<open>
  \<open>after r cur\<close> lists the cursors at which a match of \<open>r\<close> that starts at \<open>cur\<close> can
  end.
\<close>

fun after :: "regex \<Rightarrow> cursor \<Rightarrow> cursor list" where
  "after (Lit w) cur = lit w cur"
| "after (Rep c m bound) cur = rep c m bound cur"
| "after WordBoundary cur = (if word_boundary cur then [cur] else [])"
| "after StartAnchor cur = (if fst cur = None then [cur] else [])"
| "after EndAnchor cur = (if end_anchor cur then [cur] else [])"
| "after (Alt rs) cur = concat (map (\<lambda>r. after r cur) rs)"
| "after (Seq []) cur = [cur]"
| "after (Seq (r # rs)) cur = concat (map (after (Seq rs)) (after r cur))"

text \<open>\<open>re.search\<close>: is there a match starting at this position or at a later one?\<close>

fun search_from :: "regex \<Rightarrow> cursor \<Rightarrow> bool" where
  "search_from r (prev, []) = (after r (prev, []) \<noteq> [])"
| "search_from r (prev, c # cs) =
     (if after r (prev, c # cs) \<noteq> [] then True else search_from r (Some c, cs))"

definition re_search :: "regex \<Rightarrow> string \<Rightarrow> bool" where
  "re_search r s = search_from r (None, s)"

subsection \<open>ModelRouter\<close>

text \<open>\<open>\b(w1|w2|...)\b\<close>: one of the words, between word boundaries.\<close>

definition one_word_of :: "string list \<Rightarrow> regex" where
  "one_word_of ws = Seq [WordBoundary, Alt (map Lit ws), WordBoundary]"

text \<open>\<open>a.*b\<close>\<close>

definition then_later :: "string \<Rightarrow> string \<Rightarrow> regex" where
  "then_later a b = Seq [Lit a, Rep AnyChar 0 None, Lit b]"

text \<open>
  \<open>self.intent_patterns\<close>: a dictionary, so its items come in insertion order.
\<close>

definition intent_patterns :: "(TaskType \<times> regex list) list" where
  "intent_patterns =
    [(CODE,
       [one_word_of [''code'', ''program'', ''function'', ''class'', ''debug'', ''error'', ''bug'',
                  ''implement'', ''script'', ''algorithm''],
        one_word_of [''python'', ''javascript'', ''java'', ''c++'', ''rust'', ''go'', ''typescript''],
        Seq [WordBoundary,
             Alt [then_later ''write'' ''code'', then_later ''generate'' ''code'',
                  then_later ''create'' ''function'', then_later ''fix'' ''bug''],
             WordBoundary],
        Seq [Lit [CHR 0x60, CHR 0x60, CHR 0x60], Rep WordChar 0 None, Lit [CHR 0x0A]]]),
     (RESEARCH,
       [one_word_of [''research'', ''explain'', ''analyze'', ''compare'', ''study'', ''investigate'',
                  ''explore''],
        one_word_of [''what is'', ''how does'', ''why'', ''tell me about'', ''detailed'',
                  ''comprehensive''],
        one_word_of [''history'', ''background'', ''overview'', ''summary'', ''breakdown'']]),
     (PLANNING,
       [one_word_of [''plan'', ''strategy'', ''approach'', ''design'', ''architect'', ''organize'',
                  ''structure''],
        one_word_of [''steps'', ''roadmap'', ''workflow'', ''process'', ''methodology''],
        one_word_of [''how to'', ''how should'', ''what should'', ''best way'']]),
     (QUICK,
       [Seq [StartAnchor, Rep WordChar 1 (Some 20), Lit ''?'', EndAnchor],
        one_word_of [''quick'', ''simple'', ''just'', ''only''],
        Seq [StartAnchor, Alt (map Lit [''yes'', ''no'', ''ok'', ''thanks'', ''hello'', ''hi'']),
             WordBoundary]])]"

type_synonym scores = "(TaskType \<times> nat) list"

text \<open>\<open>scores[task_type] += 1\<close>\<close>

fun scores_incr :: "TaskType \<Rightarrow> scores \<Rightarrow> py_exn + scores" where
  "scores_incr t [] = Inl (KeyError (TaskType_value t))"
| "scores_incr t ((k, v) # kvs) =
     (if k = t then Inr ((k, v + 1) # kvs)
      else (case scores_incr t kvs of Inl e \<Rightarrow> Inl e | Inr kvs' \<Rightarrow> Inr ((k, v) # kvs')))"

text \<open>The inner loop: \<open>for pattern in patterns\<close>.\<close>

fun score_patterns :: "string \<Rightarrow> TaskType \<Rightarrow> regex list \<Rightarrow> scores \<Rightarrow> py_exn + scores" where
  "score_patterns query_lower task_type [] sc = Inr sc"
| "score_patterns query_lower task_type (pattern # patterns) sc =
     (if re_search pattern query_lower
      then (case scores_incr task_type sc of
              Inl e \<Rightarrow> Inl e
            | Inr sc' \<Rightarrow> score_patterns query_lower task_type patterns sc')
      else score_patterns query_lower task_type patterns sc)"

text \<open>The outer loop: \<open>for task_type, patterns in self.intent_patterns.items()\<close>.\<close>

fun score_task_types :: "string \<Rightarrow> (TaskType \<times> regex list) list \<Rightarrow> scores \<Rightarrow> py_exn + scores" where
  "score_task_types query_lower [] sc = Inr sc"
| "score_task_types query_lower ((task_type, patterns) # rest) sc =
     (case score_patterns query_lower task_type patterns sc of
        Inl e \<Rightarrow> Inl e
      | Inr sc' \<Rightarrow> score_task_types query_lower rest sc')"

text \<open>
  Python's \<open>max\<close>: \<open>ValueError\<close> on an empty sequence; otherwise the first of the maximal
  elements, since the running maximum is replaced only by a strictly greater element.
\<close>

fun py_max :: "nat list \<Rightarrow> py_exn + nat" where
  "py_max [] = Inl ValueError"
| "py_max (x # xs) = Inr (fold (\<lambda>y best. if best < y then y else best) xs x)"

fun py_max_by_score :: "scores \<Rightarrow> py_exn + (TaskType \<times> nat)" where
  "py_max_by_score [] = Inl ValueError"
| "py_max_by_score (x # xs) = Inr (fold (\<lambda>y best. if snd best < snd y then y else best) xs x)"

definition analyze_intent :: "string \<Rightarrow> py_exn + TaskType" where
  "analyze_intent query =
     (let query_lower = str_lower query;
          scores0 = map (\<lambda>task_type. (task_type, 0)) all_task_types
      in case score_task_types query_lower intent_patterns scores0 of
           Inl e \<Rightarrow> Inl e
         | Inr scores \<Rightarrow>
             (case py_max (map snd scores) of
                Inl e \<Rightarrow> Inl e
              | Inr max_score \<Rightarrow>
                  if max_score = 0 then Inr GENERAL
                  else (case py_max_by_score scores of
                          Inl e \<Rightarrow> Inl e
                        | Inr item \<Rightarrow> Inr (fst item))))"

text \<open>
  A model descriptor is a dictionary of strings (\<open>name\<close>, \<open>role\<close>, \<open>use_for\<close>); the registry
  \<open>self.models\<close> maps logical keys to descriptors, in the order of the configuration file.
\<close>

type_synonym descriptor = "(string \<times> string) list"
type_synonym registry = "(string \<times> descriptor) list"

definition descriptor_get :: "descriptor \<Rightarrow> string \<Rightarrow> py_exn + string" where
  "descriptor_get info key = (case map_of info key of None \<Rightarrow> Inl (KeyError key) | Some v \<Rightarrow> Inr v)"

text \<open>\<open>next(iter(self.models.values()))\<close>\<close>

definition first_value :: "registry \<Rightarrow> py_exn + descriptor" where
  "first_value models = (case models of [] \<Rightarrow> Inl StopIteration | (key, info) # rest \<Rightarrow> Inr info)"

text \<open>
  \<open>self.models.get('default') or next(iter(self.models.values()))\<close>: the right operand is
  evaluated when the key is absent and when its descriptor is an empty dictionary.
\<close>

definition default_model_info :: "registry \<Rightarrow> py_exn + descriptor" where
  "default_model_info models =
     (case map_of models ''default'' of
        None \<Rightarrow> first_value models
      | Some info \<Rightarrow> if info \<noteq> [] then Inr info else first_value models)"

definition select_model :: "registry \<Rightarrow> string \<Rightarrow> py_exn + (string \<times> string \<times> TaskType)" where
  "select_model models query =
     (case analyze_intent query of
        Inl e \<Rightarrow> Inl e
      | Inr task_type \<Rightarrow>
          (case default_model_info models of
             Inl e \<Rightarrow> Inl e
           | Inr model_info \<Rightarrow>
               (case descriptor_get model_info ''name'' of
                  Inl e \<Rightarrow> Inl e
                | Inr name \<Rightarrow>
                    (case descriptor_get model_info ''role'' of
                       Inl e \<Rightarrow> Inl e
                     | Inr role \<Rightarrow> Inr (name, role, task_type)))))"

definition get_model_info :: "registry \<Rightarrow> string \<Rightarrow> py_exn + descriptor" where
  "get_model_info models model_key = default_model_info models"

section \<open>nexus\_core.py\<close>

subsection \<open>Values produced by \<open>json.loads\<close>\<close>

text \<open>
  A JSON number is kept as an integer: the code only ever tests a number for being zero.
  An object is the list of its items; \<open>json.loads\<close> returns a dictionary, so a key
  occurs once.
\<close>

datatype json =
    JNull
  | JBool bool
  | JNum int
  | JStr string
  | JArr "json list"
  | JObj "(string \<times> json) list"

text \<open>Python's truth value of such a value, as tested by \<open>if content:\<close>.\<close>

fun truthy :: "json \<Rightarrow> bool" where
  "truthy JNull = False"
| "truthy (JBool b) = b"
| "truthy (JNum n) = (n \<noteq> 0)"
| "truthy (JStr s) = (s \<noteq> [])"
| "truthy (JArr xs) = (xs \<noteq> [])"
| "truthy (JObj kvs) = (kvs \<noteq> [])"

text \<open>\<open>d.get(key, default)\<close> on a dictionary.\<close>

definition dict_get :: "(string \<times> json) list \<Rightarrow> string \<Rightarrow> json \<Rightarrow> json" where
  "dict_get kvs key dflt = (case map_of kvs key of None \<Rightarrow> dflt | Some v \<Rightarrow> v)"

text \<open>\<open>w in s\<close> for two strings: \<open>w\<close> occurs in \<open>s\<close> as a substring.\<close>

fun starts_with :: "string \<Rightarrow> string \<Rightarrow> bool" where
  "starts_with s [] = True"
| "starts_with [] (a # w) = False"
| "starts_with (c # s) (a # w) = (c = a \<and> starts_with s w)"

fun str_in :: "string \<Rightarrow> string \<Rightarrow> bool" where
  "str_in w [] = (w = [])"
| "str_in w (c # s) = (starts_with (c # s) w \<or> str_in w s)"

text \<open>
  One line of the streamed response body, as the loop sees it: a line that is empty after
  \<open>strip()\<close>; a line on which \<open>json.loads\<close> raises \<open>JSONDecodeError\<close>; a line on which
  \<open>json.loads\<close> raises another exception (\<open>ValueError\<close> for an integer literal with more
  digits than the interpreter converts, \<open>RecursionError\<close> for brackets nested too deeply);
  or a line that parses to a value.
\<close>

datatype line = Blank | Malformed | LoadsRaised py_exn | Parsed json

text \<open>
  The backend's answer to one request: the lines it delivers, and how the stream ends:
  \<open>None\<close> when it is closed normally, \<open>Some e\<close> when the HTTP client raises \<open>e\<close> after those
  lines (a refused connection or a time-out raises before the first line).
\<close>

type_synonym response = "line list \<times> py_exn option"

record message =
  role :: string
  content :: string

record request =
  request_model :: string
  request_messages :: "message list"
  request_stream :: bool
  request_temperature :: json

text \<open>The dictionaries the generator yields.\<close>

datatype event =
    ModelSelected string string string
  | Content string json
  | Complete string string
  | Error py_exn string

text \<open>
  The fields of \<open>NexusCore\<close>: the router's registry \<open>self.router.models\<close>, the section
  \<open>self.config['agents']\<close> of the configuration (\<open>None\<close> when the configuration has no
  such section), the conversation history and the current model.
\<close>

record NexusCore =
  router_models :: registry
  config_agents :: "(string \<times> json) list option"
  conversation_history :: "message list"
  current_model :: "string option"

text \<open>
  The system prompt is a fixed text of some forty lines; only its first sentence is
  reproduced.
\<close>

definition get_system_prompt :: string where
  "get_system_prompt = ''You are NEXUS, a next-generation Super AI Agent built to operate at the level of ChatGPT and Gemini.''"

text \<open>\<open>xs[-10:]\<close>\<close>

definition last10 :: "'a list \<Rightarrow> 'a list" where
  "last10 xs = drop (length xs - 10) xs"

definition prepare_messages :: "NexusCore \<Rightarrow> message list" where
  "prepare_messages self =
     \<lparr>role = ''system'', content = get_system_prompt\<rparr> # last10 (conversation_history self)"

text \<open>
  The first half of the loop body: \<open>if 'message' in chunk: ...\<close>.  It returns the events
  yielded and the new value of \<open>full_response\<close>, or the exception raised.  Every raise
  happens before anything is changed.
\<close>

definition message_part :: "(string \<times> json) list \<Rightarrow> string \<Rightarrow> py_exn + (event list \<times> string)" where
  "message_part chunk full_response =
     (case map_of chunk ''message'' of
        None \<Rightarrow> Inr ([], full_response)
      | Some (JObj msg) \<Rightarrow>
          (let content = dict_get msg ''content'' (JStr [])
           in if truthy content
              then (case content of
                      JStr text \<Rightarrow>
                        Inr ([Content text (dict_get chunk ''done'' (JBool False))],
                             full_response @ text)
                    | _ \<Rightarrow> Inl TypeError)
              else Inr ([], full_response))
      | Some _ \<Rightarrow> Inl AttributeError)"

text \<open>
  The loop body for one parsed line.  A value that is not a dictionary makes
  \<open>'message' in chunk\<close>, \<open>chunk['message']\<close> or \<open>chunk.get\<close> raise.
\<close>

fun process_chunk :: "string \<Rightarrow> string \<times> NexusCore \<Rightarrow> json \<Rightarrow> py_exn + (event list \<times> string \<times> NexusCore)" where
  "process_chunk model_name (full_response, self) (JObj chunk) =
     (case message_part chunk full_response of
        Inl e \<Rightarrow> Inl e
      | Inr (evs, full_response') \<Rightarrow>
          if truthy (dict_get chunk ''done'' (JBool False))
          then Inr (evs @ [Complete full_response' model_name],
                    full_response',
                    self\<lparr>conversation_history := conversation_history self @
                       [\<lparr>role = ''assistant'', content = full_response'\<rparr>]\<rparr>)
          else Inr (evs, full_response', self))"
| "process_chunk model_name st (JStr s) =
     (if str_in ''message'' s then Inl TypeError else Inl AttributeError)"
| "process_chunk model_name st (JArr xs) =
     (if JStr ''message'' \<in> set xs then Inl TypeError else Inl AttributeError)"
| "process_chunk model_name st JNull = Inl TypeError"
| "process_chunk model_name st (JBool b) = Inl TypeError"
| "process_chunk model_name st (JNum n) = Inl TypeError"

text \<open>
  \<open>async for line in response.aiter_lines()\<close>: the events yielded, the state reached and
  the exception that ended the loop, if one did.  Only \<open>JSONDecodeError\<close> is caught inside
  the loop; every other exception leaves it.
\<close>

fun consume :: "string \<Rightarrow> line list \<Rightarrow> string \<times> NexusCore \<Rightarrow> event list \<times> (string \<times> NexusCore) \<times> py_exn option" where
  "consume model_name [] st = ([], st, None)"
| "consume model_name (Blank # ls) st = consume model_name ls st"
| "consume model_name (Malformed # ls) st = consume model_name ls st"
| "consume model_name (LoadsRaised e # ls) st = ([], st, Some e)"
| "consume model_name (Parsed chunk # ls) st =
     (case process_chunk model_name st chunk of
        Inl e \<Rightarrow> ([], st, Some e)
      | Inr (evs, st') \<Rightarrow>
          (case consume model_name ls st' of
             (evs', st'', raised) \<Rightarrow> (evs @ evs', st'', raised)))"

text \<open>\<open>self.config['agents']['temperature']\<close>\<close>

definition config_temperature :: "NexusCore \<Rightarrow> py_exn + json" where
  "config_temperature self =
     (case config_agents self of
        None \<Rightarrow> Inl (KeyError ''agents'')
      | Some agents \<Rightarrow>
          (case map_of agents ''temperature'' of
             None \<Rightarrow> Inl (KeyError ''temperature'')
           | Some t \<Rightarrow> Inr t))"

text \<open>
  An exception that leaves an asynchronous generator; \<open>StopIteration\<close> is replaced by
  \<open>RuntimeError\<close>.
\<close>

fun leaving_generator :: "py_exn \<Rightarrow> py_exn" where
  "leaving_generator StopIteration = RuntimeError"
| "leaving_generator e = e"

text \<open>
  \<open>generate_response\<close>, drained: the list of all events it yields and the object's state
  afterwards, or the exception that \<open>select_model\<close> raises before the first event.  The
  backend is a function from the request to its response.
\<close>

definition generate_response ::
  "(request \<Rightarrow> response) \<Rightarrow> NexusCore \<Rightarrow> string \<Rightarrow> bool \<Rightarrow> py_exn + (event list \<times> NexusCore)" where
  "generate_response ollama self query stream =
     (case select_model (router_models self) query of
        Inl e \<Rightarrow> Inl (leaving_generator e)
      | Inr (model_name, model_role, task_type) \<Rightarrow>
          (let self1 = self\<lparr>current_model := Some model_name\<rparr>;
               selected = ModelSelected model_name model_role (TaskType_value task_type);
               self2 = self1\<lparr>conversation_history := conversation_history self1 @
                         [\<lparr>role = ''user'', content = query\<rparr>]\<rparr>;
               messages = prepare_messages self2
           in case config_temperature self2 of
                Inl e \<Rightarrow> Inr ([selected, Error e model_name], self2)
              | Inr temperature \<Rightarrow>
                  (case ollama \<lparr>request_model = model_name, request_messages = messages,
                                request_stream = stream, request_temperature = temperature\<rparr> of
                     (lines, failure) \<Rightarrow>
                       (case consume model_name lines ([], self2) of
                          (evs, (full_response, self3), raised) \<Rightarrow>
                            (case (case raised of Some e \<Rightarrow> Some e | None \<Rightarrow> failure) of
                               Some e \<Rightarrow> Inr (selected # evs @ [Error e model_name], self3)
                             | None \<Rightarrow> Inr (selected # evs, self3))))))"

definition reset_conversation :: "NexusCore \<Rightarrow> NexusCore" where
  "reset_conversation self = self\<lparr>conversation_history := []\<rparr>"

section \<open>chat\_manager.py\<close>

text \<open>
  The database: the three tables, each the list of its rows in the order of insertion,
  and the two \<open>AUTOINCREMENT\<close> counters.  A timestamp is the clock's reading in seconds.
  No \<open>PRAGMA foreign_keys\<close> is issued, so the foreign key of \<open>messages\<close> is not
  enforced.
\<close>

record conversation_row =
  conv_id :: int
  title :: string
  created_at :: nat
  updated_at :: nat
  conv_model :: "string option"
  message_count :: int

record message_row =
  msg_id :: int
  conversation_id :: int
  msg_role :: string
  msg_content :: string
  msg_model :: "string option"
  timestamp :: nat

record fts_row =
  fts_content :: string
  fts_conversation_id :: int

record db =
  conversations :: "conversation_row list"
  messages :: "message_row list"
  messages_fts :: "fts_row list"
  conversations_seq :: int
  messages_seq :: int

text \<open>\<open>initialize\<close> on a new database file.\<close>

definition initialize :: db where
  "initialize = \<lparr>conversations = [], messages = [], messages_fts = [],
                  conversations_seq = 0, messages_seq = 0\<rparr>"

text \<open>
  The row id an \<open>AUTOINCREMENT\<close> column gets: one more than the largest id the table has
  ever held.
\<close>

definition next_rowid :: "int \<Rightarrow> int list \<Rightarrow> int" where
  "next_rowid seq ids = fold max ids seq + 1"

definition create_conversation :: "db \<Rightarrow> nat \<Rightarrow> string \<Rightarrow> string option \<Rightarrow> int \<times> db" where
  "create_conversation d now ttl model =
     (let lastrowid = next_rowid (conversations_seq d) (map conv_id (conversations d))
      in (lastrowid,
          d\<lparr>conversations := conversations d @
               [\<lparr>conv_id = lastrowid, title = ttl, created_at = now, updated_at = now,
                 conv_model = model, message_count = 0\<rparr>],
            conversations_seq := lastrowid\<rparr>))"

text \<open>
  The three statements of \<open>add_message\<close>.  \<open>CURRENT_TIMESTAMP\<close> is read once per statement
  and has a resolution of one second: \<open>now\<close> is its value in the statement.
\<close>

definition insert_message :: "db \<Rightarrow> nat \<Rightarrow> int \<Rightarrow> string \<Rightarrow> string \<Rightarrow> string option \<Rightarrow> db" where
  "insert_message d now cid rl text model =
     (let rowid = next_rowid (messages_seq d) (map msg_id (messages d))
      in d\<lparr>messages := messages d @
              [\<lparr>msg_id = rowid, conversation_id = cid, msg_role = rl, msg_content = text,
                msg_model = model, timestamp = now\<rparr>],
           messages_seq := rowid\<rparr>)"

definition insert_fts :: "db \<Rightarrow> string \<Rightarrow> int \<Rightarrow> db" where
  "insert_fts d text cid =
     d\<lparr>messages_fts := messages_fts d @ [\<lparr>fts_content = text, fts_conversation_id = cid\<rparr>]\<rparr>"

definition update_conversation :: "db \<Rightarrow> nat \<Rightarrow> int \<Rightarrow> db" where
  "update_conversation d now cid =
     d\<lparr>conversations :=
         map (\<lambda>c. if conv_id c = cid
                   then c\<lparr>updated_at := now, message_count := message_count c + 1\<rparr>
                   else c)
             (conversations d)\<rparr>"

text \<open>
  \<open>add_message\<close> when no statement raises: the two \<open>INSERT\<close>s and the \<open>UPDATE\<close>, committed
  together.  \<open>now_insert\<close> and \<open>now_update\<close> are the values of \<open>CURRENT_TIMESTAMP\<close> in the
  first and in the last statement.
\<close>

definition add_message ::
  "db \<Rightarrow> nat \<Rightarrow> nat \<Rightarrow> int \<Rightarrow> string \<Rightarrow> string \<Rightarrow> string option \<Rightarrow> db" where
  "add_message d now_insert now_update cid rl text model =
     update_conversation
       (insert_fts (insert_message d now_insert cid rl text model) text cid)
       now_update cid"

text \<open>
  A connection made by \<open>aiosqlite.connect\<close>: the committed database, and the database as
  the connection sees it, with its own changes that are not committed yet.  Closing a
  connection drops the changes that were not committed.
\<close>

record connection =
  conn_committed :: db
  conn_view :: db

definition sql_connect :: "db \<Rightarrow> connection" where
  "sql_connect d = \<lparr>conn_committed = d, conn_view = d\<rparr>"

definition sql_execute :: "(db \<Rightarrow> db) \<Rightarrow> connection \<Rightarrow> connection" where
  "sql_execute statement conn = conn\<lparr>conn_view := statement (conn_view conn)\<rparr>"

definition sql_commit :: "connection \<Rightarrow> connection" where
  "sql_commit conn = conn\<lparr>conn_committed := conn_view conn\<rparr>"

definition sql_close :: "connection \<Rightarrow> db" where
  "sql_close conn = conn_committed conn"

text \<open>
  The statements of a method are executed in turn.  \<open>raises k\<close> is the exception that the
  database library raises in the \<open>k\<close>-th call of the method (a full disk, a locked
  database), if it raises one; the method then stops with the connection as it is.
\<close>

fun run_statements ::
  "(nat \<Rightarrow> py_exn option) \<Rightarrow> nat \<Rightarrow> (db \<Rightarrow> db) list \<Rightarrow> connection \<Rightarrow> py_exn option \<times> connection" where
  "run_statements raises k [] conn = (None, conn)"
| "run_statements raises k (statement # rest) conn =
     (case raises k of
        Some e \<Rightarrow> (Some e, conn)
      | None \<Rightarrow> run_statements raises (Suc k) rest (sql_execute statement conn))"

text \<open>
  A call of \<open>add_message\<close>: the three statements and the commit inside
  \<open>async with aiosqlite.connect(...)\<close>, which closes the connection on every way out.  The
  result is the exception raised, if any, and the committed database afterwards.
\<close>

definition add_message_call ::
  "(nat \<Rightarrow> py_exn option) \<Rightarrow> db \<Rightarrow> nat \<Rightarrow> nat \<Rightarrow> int \<Rightarrow> string \<Rightarrow> string \<Rightarrow> string option \<Rightarrow>
     py_exn option \<times> db" where
  "add_message_call raises d now_insert now_update cid rl text model =
     (case run_statements raises 0
             [\<lambda>w. insert_message w now_insert cid rl text model,
              \<lambda>w. insert_fts w text cid,
              \<lambda>w. update_conversation w now_update cid]
             (sql_connect d) of
        (Some e, conn) \<Rightarrow> (Some e, sql_close conn)
      | (None, conn) \<Rightarrow>
          (case raises 3 of
             Some e \<Rightarrow> (Some e, sql_close conn)
           | None \<Rightarrow> (None, sql_close (sql_commit conn))))"

text \<open>\<open>LIMIT n\<close>: a negative \<open>n\<close> is no limit.\<close>

definition sql_limit :: "int \<Rightarrow> 'a list \<Rightarrow> 'a list" where
  "sql_limit n rows = (if n < 0 then rows else take (nat n) rows)"

text \<open>
  \<open>ORDER BY updated_at DESC\<close> over the table; rows with the same value are kept in the
  order of the table.
\<close>

definition newest_first :: "conversation_row list \<Rightarrow> conversation_row list" where
  "newest_first rows = sort_key (\<lambda>c. - int (updated_at c)) rows"

definition get_conversations :: "db \<Rightarrow> int \<Rightarrow> conversation_row list" where
  "get_conversations d limit = sql_limit limit (newest_first (conversations d))"

text \<open>
  \<open>get_conversation\<close>: \<open>None\<close> when no row has the id; otherwise the row and the
  conversation's messages as (role, content, model, timestamp), \<open>ORDER BY timestamp ASC\<close>,
  messages with the same timestamp in the order of insertion.
\<close>

definition get_conversation ::
  "db \<Rightarrow> int \<Rightarrow> (conversation_row \<times> (string \<times> string \<times> string option \<times> nat) list) option" where
  "get_conversation d cid =
     (case find (\<lambda>c. conv_id c = cid) (conversations d) of
        None \<Rightarrow> None
      | Some conv \<Rightarrow>
          Some (conv,
                map (\<lambda>m. (msg_role m, msg_content m, msg_model m, timestamp m))
                    (sort_key timestamp (filter (\<lambda>m. conversation_id m = cid) (messages d)))))"













section \<open>api.py\<close>

text \<open>The two module-level objects of the server.\<close>

record server =
  nexus :: NexusCore
  chat_manager :: db

text \<open>
  The \<open>/chat\<close> endpoint with \<open>stream=True\<close> (and likewise the web socket): every event of
  \<open>nexus.generate_response\<close> is forwarded.
\<close>

definition chat :: "(request \<Rightarrow> response) \<Rightarrow> server \<Rightarrow> string \<Rightarrow> py_exn + (event list \<times> server)" where
  "chat ollama srv msg =
     (case generate_response ollama (nexus srv) msg True of
        Inl e \<Rightarrow> Inl e
      | Inr (evs, self') \<Rightarrow> Inr (evs, srv\<lparr>nexus := self'\<rparr>))"

section \<open>Notions used to state the properties\<close>

subsection \<open>Classification\<close>

text \<open>The categories that have patterns, in the order of \<open>intent_patterns\<close>.\<close>

definition categories :: "TaskType list" where
  "categories = [CODE, RESEARCH, PLANNING, QUICK]"

definition patterns_of :: "TaskType \<Rightarrow> regex list" where
  "patterns_of t = (case map_of intent_patterns t of None \<Rightarrow> [] | Some ps \<Rightarrow> ps)"

text \<open>The score of a category: how many of its patterns match the lower-cased query.\<close>

definition match_count :: "TaskType \<Rightarrow> string \<Rightarrow> nat" where
  "match_count t query = length (filter (\<lambda>p. re_search p (str_lower query)) (patterns_of t))"

text \<open>Adding \<open>n\<close> to the score stored under a key.\<close>

definition bump :: "TaskType \<Rightarrow> nat \<Rightarrow> scores \<Rightarrow> scores" where
  "bump t n sc = map (\<lambda>(k, v). if k = t then (k, v + n) else (k, v)) sc"

subsection \<open>Events and frames\<close>

fun is_content :: "event \<Rightarrow> bool" where
  "is_content (Content text done) = True"
| "is_content ev = False"

fun is_complete :: "event \<Rightarrow> bool" where
  "is_complete (Complete text model) = True"
| "is_complete ev = False"

fun is_error :: "event \<Rightarrow> bool" where
  "is_error (Error e model) = True"
| "is_error ev = False"

fun is_model_selected :: "event \<Rightarrow> bool" where
  "is_model_selected (ModelSelected name rl task) = True"
| "is_model_selected ev = False"

text \<open>The texts of the \<open>Content\<close> events and of the \<open>Complete\<close> events, in order.\<close>

fun content_texts :: "event list \<Rightarrow> string list" where
  "content_texts [] = []"
| "content_texts (Content text done # evs) = text # content_texts evs"
| "content_texts (ev # evs) = content_texts evs"

fun complete_texts :: "event list \<Rightarrow> string list" where
  "complete_texts [] = []"
| "complete_texts (Complete text model # evs) = text # complete_texts evs"
| "complete_texts (ev # evs) = complete_texts evs"

text \<open>
  \<open>accumulated full model evs\<close>: every \<open>Complete\<close> event of \<open>evs\<close> carries the model name and
  the concatenation of \<open>full\<close> and the texts of the \<open>Content\<close> events before it.
\<close>

fun accumulated :: "string \<Rightarrow> string \<Rightarrow> event list \<Rightarrow> bool" where
  "accumulated full model [] = True"
| "accumulated full model (Content text done # evs) = accumulated (full @ text) model evs"
| "accumulated full model (Complete text name # evs) =
     (text = full \<and> name = model \<and> accumulated full model evs)"
| "accumulated full model (ev # evs) = accumulated full model evs"

definition user_message :: "string \<Rightarrow> message" where
  "user_message query = \<lparr>role = ''user'', content = query\<rparr>"

definition assistant_message :: "string \<Rightarrow> message" where
  "assistant_message text = \<lparr>role = ''assistant'', content = text\<rparr>"

text \<open>A terminal frame: a line that parses to an object whose \<open>done\<close> is true.\<close>

fun terminal_frame :: "line \<Rightarrow> bool" where
  "terminal_frame (Parsed (JObj chunk)) = truthy (dict_get chunk ''done'' (JBool False))"
| "terminal_frame ln = False"

text \<open>
  A line of the expected shape: blank, rejected with \<open>JSONDecodeError\<close>, or an object whose
  \<open>message\<close>, if it has one, is an object whose \<open>content\<close> is a string or a false value.
\<close>

fun frame_ok :: "line \<Rightarrow> bool" where
  "frame_ok (Parsed (JObj chunk)) =
     (case map_of chunk ''message'' of
        None \<Rightarrow> True
      | Some (JObj msg) \<Rightarrow>
          (case dict_get msg ''content'' (JStr []) of
             JStr text \<Rightarrow> True
           | other \<Rightarrow> \<not> truthy other)
      | Some other \<Rightarrow> False)"
| "frame_ok (Parsed other) = False"
| "frame_ok (LoadsRaised e) = False"
| "frame_ok ln = True"

text \<open>The text fragment a line carries, if any.\<close>

fun frame_text :: "line \<Rightarrow> string list" where
  "frame_text (Parsed (JObj chunk)) =
     (case map_of chunk ''message'' of
        Some (JObj msg) \<Rightarrow>
          (case dict_get msg ''content'' (JStr []) of
             JStr text \<Rightarrow> (if text = [] then [] else [text])
           | other \<Rightarrow> [])
      | other \<Rightarrow> [])"
| "frame_text ln = []"

subsection \<open>The search index\<close>

text \<open>The index holds one entry per stored message, with its content and conversation.\<close>

definition index_consistent :: "db \<Rightarrow> bool" where
  "index_consistent d =
     (map (\<lambda>f. (fts_content f, fts_conversation_id f)) (messages_fts d) =
      map (\<lambda>m. (msg_content m, conversation_id m)) (messages d))"

subsection \<open>Example inputs\<close>

text \<open>The registry that \<open>nexus_chat.py\<close> uses when there is no configuration file.\<close>

definition example_models :: registry where
  "example_models =
     [(''default'', [(''name'', ''deepseek-v3.1:671b-cloud''), (''role'', ''Core Intelligence Brain'')])]"

text \<open>A core object with that registry, a temperature and an empty history.\<close>

definition example_core :: NexusCore where
  "example_core =
     \<lparr>router_models = example_models, config_agents = Some [(''temperature'', JNum 1)],
      conversation_history = [], current_model = None\<rparr>"

text \<open>The frames \<open>{"message": {"content": text}}\<close> and \<open>{"done": true}\<close>.\<close>

definition content_frame :: "string \<Rightarrow> line" where
  "content_frame text = Parsed (JObj [(''message'', JObj [(''content'', JStr text)])])"

definition done_frame :: line where
  "done_frame = Parsed (JObj [(''done'', JBool True)])"

text \<open>A server whose store holds one conversation without messages.\<close>

definition example_server :: server where
  "example_server =
     \<lparr>nexus = example_core, chat_manager = snd (create_conversation initialize 0 ''chat'' None)\<rparr>"

text \<open>
  A store with two conversations; the second one holds the message \<open>hello\<close>, written at
  time 2.
\<close>

definition example_db :: db where
  "example_db =
     add_message
       (snd (create_conversation (snd (create_conversation initialize 0 ''first'' None))
               1 ''second'' None))
       2 2 2 ''user'' ''hello'' None"


section \<open>Properties of the classifier and the router\<close>

lemma intent_patterns_items:
  "intent_patterns =
     [(CODE, patterns_of CODE), (RESEARCH, patterns_of RESEARCH),
      (PLANNING, patterns_of PLANNING), (QUICK, patterns_of QUICK)]"
  by (simp add: intent_patterns_def patterns_of_def)

lemma bump_absent: "\<forall>x \<in> set sc. fst x \<noteq> t \<Longrightarrow> bump t n sc = sc"
  by (induction sc) (auto simp: bump_def)

lemma scores_incr_present:
  "distinct (map fst sc) \<Longrightarrow> t \<in> fst ` set sc \<Longrightarrow> scores_incr t sc = Inr (bump t 1 sc)"
proof (induction sc)
  case Nil
  then show ?case by simp
next
  case (Cons kv sc)
  obtain k v where kv: "kv = (k, v)" by (cases kv)
  show ?case
  proof (cases "k = t")
    case True
    with Cons.prems kv have "\<forall>x \<in> set sc. fst x \<noteq> t" by auto
    then have "bump t 1 sc = sc" by (rule bump_absent)
    then have "bump t 1 ((t, v) # sc) = (t, v + 1) # sc" by (simp add: bump_def)
    with True kv show ?thesis by simp
  next
    case False
    with Cons kv show ?thesis by (auto simp: bump_def)
  qed
qed

lemma bump_keys: "map fst (bump t n sc) = map fst sc"
  by (induction sc) (auto simp: bump_def)

lemma bump_bump: "bump t m (bump t n sc) = bump t (n + m) sc"
  by (induction sc) (auto simp: bump_def)

lemma bump_zero: "bump t 0 sc = sc"
  by (induction sc) (auto simp: bump_def)

lemma score_patterns_count:
  "distinct (map fst sc) \<Longrightarrow> t \<in> fst ` set sc \<Longrightarrow>
   score_patterns q t ps sc = Inr (bump t (length (filter (\<lambda>p. re_search p q) ps)) sc)"
proof (induction ps arbitrary: sc)
  case Nil
  then show ?case by (simp add: bump_zero)
next
  case (Cons p ps)
  show ?case
  proof (cases "re_search p q")
    case True
    have d: "distinct (map fst (bump t 1 sc))" using Cons.prems by (simp add: bump_keys)
    have m: "t \<in> fst ` set (bump t 1 sc)"
      using Cons.prems bump_keys [of t 1 sc] by (metis set_map)
    from Cons.IH [OF d m] True Cons.prems show ?thesis
      by (simp add: scores_incr_present bump_bump)
  next
    case False
    with Cons show ?thesis by simp
  qed
qed

lemma score_task_types_counts:
  "score_task_types (str_lower query) intent_patterns (map (\<lambda>task_type. (task_type, 0)) all_task_types) =
     Inr [(CODE, match_count CODE query), (RESEARCH, match_count RESEARCH query),
          (PLANNING, match_count PLANNING query), (QUICK, match_count QUICK query), (GENERAL, 0)]"
  by (simp add: intent_patterns_items all_task_types_def score_patterns_count match_count_def bump_def)

lemma analyze_intent_explicit:
  "analyze_intent query =
     (let a = match_count CODE query; b = match_count RESEARCH query;
          c = match_count PLANNING query; d = match_count QUICK query
      in Inr (if a = 0 \<and> b = 0 \<and> c = 0 \<and> d = 0 then GENERAL
              else if b \<le> a \<and> c \<le> a \<and> d \<le> a then CODE
              else if c \<le> b \<and> d \<le> b then RESEARCH
              else if d \<le> c then PLANNING
              else QUICK))"
  unfolding analyze_intent_def Let_def score_task_types_counts
  by (auto simp: not_le not_less)

text \<open>
  Claim C3.  \<open>analyze_intent\<close> returns \<open>GENERAL\<close> when no pattern of any category matches.
  Otherwise it returns a category of the highest match count, and among the categories
  with that count the first one in the order \<open>CODE\<close>, \<open>RESEARCH\<close>, \<open>PLANNING\<close>, \<open>QUICK\<close>:
  every category before the one returned has a strictly smaller count.  It raises no
  exception on any query, and the empty query is classified \<open>GENERAL\<close>.
\<close>

theorem analyze_intent_stable_argmax:
  "((\<forall>c \<in> set categories. match_count c query = 0) \<longrightarrow> analyze_intent query = Inr GENERAL) \<and>
   ((\<exists>c \<in> set categories. 0 < match_count c query) \<longrightarrow>
      (\<exists>i < length categories.
         analyze_intent query = Inr (categories ! i) \<and>
         (\<forall>c \<in> set categories. match_count c query \<le> match_count (categories ! i) query) \<and>
         (\<forall>j < i. match_count (categories ! j) query < match_count (categories ! i) query))) \<and>
   (\<exists>t. analyze_intent query = Inr t) \<and>
   analyze_intent [] = Inr GENERAL"
proof (intro conjI impI)
  assume "\<forall>c \<in> set categories. match_count c query = 0"
  then show "analyze_intent query = Inr GENERAL"
    by (simp add: analyze_intent_explicit categories_def)
next
  let ?a = "match_count CODE query" and ?b = "match_count RESEARCH query"
  let ?c = "match_count PLANNING query" and ?d = "match_count QUICK query"
  assume "\<exists>c \<in> set categories. 0 < match_count c query"
  then have pos: "0 < ?a \<or> 0 < ?b \<or> 0 < ?c \<or> 0 < ?d"
    by (auto simp: categories_def)
  consider (code) "?b \<le> ?a" "?c \<le> ?a" "?d \<le> ?a"
    | (research) "?a < ?b" "?c \<le> ?b" "?d \<le> ?b"
    | (planning) "?a < ?c" "?b < ?c" "?d \<le> ?c"
    | (quick) "?a < ?d" "?b < ?d" "?c < ?d"
    by linarith
  then show "\<exists>i < length categories.
         analyze_intent query = Inr (categories ! i) \<and>
         (\<forall>c \<in> set categories. match_count c query \<le> match_count (categories ! i) query) \<and>
         (\<forall>j < i. match_count (categories ! j) query < match_count (categories ! i) query)"
  proof cases
    case code
    with pos show ?thesis
      by (intro exI [of _ 0]) (auto simp: analyze_intent_explicit categories_def)
  next
    case research
    with pos show ?thesis
      by (intro exI [of _ 1]) (auto simp: analyze_intent_explicit categories_def)
  next
    case planning
    with pos show ?thesis
      by (intro exI [of _ 2]) (auto simp: analyze_intent_explicit categories_def less_Suc_eq numeral_2_eq_2)
  next
    case quick
    with pos show ?thesis
      by (intro exI [of _ 3]) (auto simp: analyze_intent_explicit categories_def less_Suc_eq numeral_3_eq_3)
  qed
next
  show "\<exists>t. analyze_intent query = Inr t"
    by (simp add: analyze_intent_explicit Let_def)
next
  show "analyze_intent [] = Inr GENERAL"
    by code_simp
qed

theorem analyze_intent_stable_argmax_witness:
  "analyze_intent ''hi'' = Inr QUICK \<and> match_count QUICK ''hi'' = 1 \<and> match_count CODE ''hi'' = 0
   \<and> match_count RESEARCH ''hi'' = 0 \<and> match_count PLANNING ''hi'' = 0"
proof -
  have counts: "match_count CODE ''hi'' = 0" "match_count RESEARCH ''hi'' = 0"
    "match_count PLANNING ''hi'' = 0" "match_count QUICK ''hi'' = 1"
    by code_simp+
  then have "\<exists>c \<in> set categories. 0 < match_count c ''hi''"
    by (simp add: categories_def)
  with analyze_intent_stable_argmax [of "''hi''"] obtain i where
    i: "i < length categories" "analyze_intent ''hi'' = Inr (categories ! i)"
       "\<forall>c \<in> set categories. match_count c ''hi'' \<le> match_count (categories ! i) ''hi''"
    by blast
  from i(1) have "i = 0 \<or> i = 1 \<or> i = 2 \<or> i = 3"
    by (auto simp: categories_def)
  with i(3) counts have "i = 3"
    by (auto simp: categories_def)
  with i(2) counts show ?thesis by (simp add: categories_def)
qed

lemma analyze_intent_total: "\<exists>task. analyze_intent query = Inr task"
  by (simp add: analyze_intent_explicit Let_def)

lemma analyze_intent_sort_query:
  "analyze_intent ''write a python function to sort a list'' = Inr CODE"
  by code_simp

lemma analyze_intent_hi: "analyze_intent ''hi'' = Inr QUICK"
  by code_simp

lemma select_model_default:
  assumes "map_of models ''default'' = Some info"
    and "map_of info ''name'' = Some name" and "map_of info ''role'' = Some rl"
    and "analyze_intent query = Inr task"
  shows "select_model models query = Inr (name, rl, task)"
proof -
  from assms(2) have "info \<noteq> []" by auto
  with assms show ?thesis
    by (simp add: select_model_def default_model_info_def descriptor_get_def)
qed

lemma default_model_info_first:
  assumes "map_of models ''default'' = None" and "models = (k, info) # rest"
  shows "default_model_info models = Inr info"
proof -
  from assms(1) have "default_model_info models = first_value models"
    by (simp add: default_model_info_def)
  also from assms(2) have "\<dots> = Inr info"
    by (simp add: first_value_def)
  finally show ?thesis .
qed

lemma select_model_first:
  assumes "map_of models ''default'' = None" and "models = (k, info) # rest"
    and "map_of info ''name'' = Some name" and "map_of info ''role'' = Some rl"
    and "analyze_intent query = Inr task"
  shows "select_model models query = Inr (name, rl, task)"
  using assms(3-5) default_model_info_first [OF assms(1,2)]
  by (simp add: select_model_def descriptor_get_def)

lemma select_model_task:
  assumes "select_model models query = Inr (name, rl, task)"
  shows "analyze_intent query = Inr task"
  using assms
  by (auto simp: select_model_def split: sum.splits)

lemma select_model_name_role:
  "map_sum id (\<lambda>(name, rl, task). (name, rl)) (select_model models q1) =
   map_sum id (\<lambda>(name, rl, task). (name, rl)) (select_model models q2)"
proof -
  from analyze_intent_total obtain t1 where t1: "analyze_intent q1 = Inr t1" by blast
  from analyze_intent_total obtain t2 where t2: "analyze_intent q2 = Inr t2" by blast
  show ?thesis
    by (simp add: select_model_def t1 t2 split: sum.splits)
qed

text \<open>
  Claim C4.  For any two queries \<open>select_model\<close> gives the same model name and role (or
  the same exception), whatever the task types; the task type it returns is the query's
  own classification.  When the registry has a descriptor under \<open>default\<close> with a name and a
  role, these are returned for every query, in particular for the two example queries,
  which are classified \<open>CODE\<close> and \<open>QUICK\<close>; when the registry has no key \<open>default\<close>, those
  of its first entry are returned.  \<open>get_model_info\<close> ignores its key and returns that same
  descriptor.
\<close>

theorem select_model_always_default:
  "map_sum id (\<lambda>(name, rl, task). (name, rl)) (select_model models q1) =
     map_sum id (\<lambda>(name, rl, task). (name, rl)) (select_model models q2) \<and>
   (\<forall>name rl task. select_model models q1 = Inr (name, rl, task) \<longrightarrow>
      analyze_intent q1 = Inr task) \<and>
   (\<forall>info name rl.
      map_of models ''default'' = Some info \<and> map_of info ''name'' = Some name \<and>
      map_of info ''role'' = Some rl \<longrightarrow>
        (\<exists>task. analyze_intent q1 = Inr task \<and> select_model models q1 = Inr (name, rl, task)) \<and>
        select_model models ''write a python function to sort a list'' = Inr (name, rl, CODE) \<and>
        select_model models ''hi'' = Inr (name, rl, QUICK) \<and>
        get_model_info models model_key = Inr info) \<and>
   (\<forall>k info rest name rl.
      map_of models ''default'' = None \<and> models = (k, info) # rest \<and>
      map_of info ''name'' = Some name \<and> map_of info ''role'' = Some rl \<longrightarrow>
        (\<exists>task. analyze_intent q1 = Inr task \<and> select_model models q1 = Inr (name, rl, task)) \<and>
        get_model_info models model_key = Inr info) \<and>
   get_model_info models model_key = get_model_info models other_key"
proof (intro conjI allI impI)
  show "map_sum id (\<lambda>(name, rl, task). (name, rl)) (select_model models q1) =
     map_sum id (\<lambda>(name, rl, task). (name, rl)) (select_model models q2)"
    by (rule select_model_name_role)
next
  fix name rl task
  assume "select_model models q1 = Inr (name, rl, task)"
  then show "analyze_intent q1 = Inr task" by (rule select_model_task)
next
  fix info name rl
  assume a: "map_of models ''default'' = Some info \<and> map_of info ''name'' = Some name \<and>
      map_of info ''role'' = Some rl"
  from analyze_intent_total obtain task where t: "analyze_intent q1 = Inr task" by blast
  with a show "\<exists>task. analyze_intent q1 = Inr task \<and> select_model models q1 = Inr (name, rl, task)"
    by (auto intro: select_model_default)
  from a show "select_model models ''write a python function to sort a list'' = Inr (name, rl, CODE)"
    by (auto intro: select_model_default analyze_intent_sort_query)
  from a show "select_model models ''hi'' = Inr (name, rl, QUICK)"
    by (auto intro: select_model_default analyze_intent_hi)
  from a have "info \<noteq> []" by auto
  with a show "get_model_info models model_key = Inr info"
    by (simp add: get_model_info_def default_model_info_def)
next
  fix k info rest name rl
  assume a: "map_of models ''default'' = None \<and> models = (k, info) # rest \<and>
      map_of info ''name'' = Some name \<and> map_of info ''role'' = Some rl"
  from analyze_intent_total obtain task where t: "analyze_intent q1 = Inr task" by blast
  with a show "\<exists>task. analyze_intent q1 = Inr task \<and> select_model models q1 = Inr (name, rl, task)"
    by (auto intro: select_model_first)
  from a have n: "map_of models ''default'' = None" and m: "models = (k, info) # rest"
    by blast+
  show "get_model_info models model_key = Inr info"
    unfolding get_model_info_def by (rule default_model_info_first [OF n m])
next
  show "get_model_info models model_key = get_model_info models other_key"
    by (simp add: get_model_info_def)
qed

theorem select_model_always_default_witness:
  "select_model example_models ''write a python function to sort a list'' =
     Inr (''deepseek-v3.1:671b-cloud'', ''Core Intelligence Brain'', CODE) \<and>
   select_model example_models ''hi'' =
     Inr (''deepseek-v3.1:671b-cloud'', ''Core Intelligence Brain'', QUICK) \<and>
   get_model_info example_models ''code'' =
     Inr [(''name'', ''deepseek-v3.1:671b-cloud''), (''role'', ''Core Intelligence Brain'')]"
proof -
  let ?info = "[(''name'', ''deepseek-v3.1:671b-cloud''), (''role'', ''Core Intelligence Brain'')]"
  have h: "map_of example_models ''default'' = Some ?info \<and>
           map_of ?info ''name'' = Some ''deepseek-v3.1:671b-cloud'' \<and>
           map_of ?info ''role'' = Some ''Core Intelligence Brain''"
    by (simp add: example_models_def)
  from select_model_always_default [of example_models "''hi''" "''hi''" "''code''" "''code''",
      THEN conjunct2, THEN conjunct2, THEN conjunct1, rule_format, OF h]
  show ?thesis by simp
qed

section \<open>Properties of the streaming loop\<close>

lemma message_part_cases:
  assumes "message_part chunk full = Inr (evs, full')"
  shows "(evs = [] \<and> full' = full) \<or>
         (\<exists>text. text \<noteq> [] \<and> evs = [Content text (dict_get chunk ''done'' (JBool False))] \<and>
                 full' = full @ text)"
  using assms
  by (auto simp: message_part_def Let_def split: option.splits json.splits if_splits)

lemma process_chunk_Inr:
  assumes "process_chunk model (full, self) c = Inr (evs, full', self')"
  shows "\<exists>chunk cont. c = JObj chunk \<and> message_part chunk full = Inr (cont, full') \<and>
           (if terminal_frame (Parsed c)
            then evs = cont @ [Complete full' model] \<and>
                 self' = self\<lparr>conversation_history :=
                           conversation_history self @ [assistant_message full']\<rparr>
            else evs = cont \<and> self' = self)"
  using assms
  by (cases c) (auto simp: assistant_message_def split: sum.splits if_splits)

lemma content_texts_append: "content_texts (xs @ ys) = content_texts xs @ content_texts ys"
  by (induction xs rule: content_texts.induct) auto

lemma complete_texts_append: "complete_texts (xs @ ys) = complete_texts xs @ complete_texts ys"
  by (induction xs rule: complete_texts.induct) auto

lemma accumulated_append:
  "accumulated full model (xs @ ys) =
     (accumulated full model xs \<and> accumulated (full @ concat (content_texts xs)) model ys)"
  by (induction full model xs rule: accumulated.induct) auto

text \<open>What one processed chunk contributes.\<close>

lemma process_chunk_summary:
  assumes "process_chunk model (full, self) c = Inr (evs, full', self')"
  shows "self' = self\<lparr>conversation_history :=
                    conversation_history self @ map assistant_message (complete_texts evs)\<rparr>"
    and "full' = full @ concat (content_texts evs)"
    and "list_all (\<lambda>e. is_content e \<or> is_complete e) evs"
    and "accumulated full model evs"
    and "content_texts evs = frame_text (Parsed c)"
    and "complete_texts evs = (if terminal_frame (Parsed c) then [full'] else [])"
    and "frame_ok (Parsed c)"
proof -
  from process_chunk_Inr [OF assms] obtain chunk cont where
    c: "c = JObj chunk" and mp: "message_part chunk full = Inr (cont, full')" and
    rest: "if terminal_frame (Parsed c)
            then evs = cont @ [Complete full' model] \<and>
                 self' = self\<lparr>conversation_history :=
                           conversation_history self @ [assistant_message full']\<rparr>
            else evs = cont \<and> self' = self"
    by blast
  from message_part_cases [OF mp] have cont:
    "(cont = [] \<and> full' = full) \<or>
     (\<exists>text. text \<noteq> [] \<and> cont = [Content text (dict_get chunk ''done'' (JBool False))] \<and>
                 full' = full @ text)" .
  show "self' = self\<lparr>conversation_history :=
                    conversation_history self @ map assistant_message (complete_texts evs)\<rparr>"
    using rest cont by (auto simp: complete_texts_append split: if_splits)
  show "full' = full @ concat (content_texts evs)"
    using rest cont by (auto simp: content_texts_append split: if_splits)
  show "list_all (\<lambda>e. is_content e \<or> is_complete e) evs"
    using rest cont by (auto split: if_splits)
  show "accumulated full model evs"
    using rest cont by (auto simp: accumulated_append split: if_splits)
  show "content_texts evs = frame_text (Parsed c)"
    using rest mp c
    by (auto simp: message_part_def Let_def content_texts_append split: if_splits option.splits json.splits)
  show "complete_texts evs = (if terminal_frame (Parsed c) then [full'] else [])"
    using rest cont by (auto simp: complete_texts_append split: if_splits)
  show "frame_ok (Parsed c)"
    using mp c
    by (auto simp: message_part_def Let_def split: if_splits option.splits json.splits)
qed


lemma consume_Parsed_Inr:
  "process_chunk model st c = Inr (evs1, st1) \<Longrightarrow>
   consume model (Parsed c # lines) st =
     (evs1 @ fst (consume model lines st1), snd (consume model lines st1))"
  by (simp split: prod.splits)

text \<open>What the whole loop contributes.\<close>

lemma consume_summary:
  assumes "consume model lines (full, self) = (evs, (full', self'), raised)"
  shows "self' = self\<lparr>conversation_history :=
                    conversation_history self @ map assistant_message (complete_texts evs)\<rparr> \<and>
         full' = full @ concat (content_texts evs) \<and>
         list_all (\<lambda>e. is_content e \<or> is_complete e) evs \<and>
         accumulated full model evs"
  using assms
proof (induction lines arbitrary: full self evs full' self' raised)
  case Nil
  then show ?case by simp
next
  case (Cons ln lines)
  show ?case
  proof (cases ln)
    case Blank
    with Cons show ?thesis by simp
  next
    case Malformed
    with Cons show ?thesis by simp
  next
    case (LoadsRaised e)
    with Cons show ?thesis by simp
  next
    case (Parsed c)
    show ?thesis
    proof (cases "process_chunk model (full, self) c")
      case (Inl e)
      with Cons.prems Parsed show ?thesis by simp
    next
      case (Inr r)
      obtain evs1 full1 self1 where r: "r = (evs1, full1, self1)" by (cases r) auto
      obtain evs2 full2 self2 raised2 where
        rec: "consume model lines (full1, self1) = (evs2, (full2, self2), raised2)"
        by (cases "consume model lines (full1, self1)") auto
      from Cons.prems Parsed rec consume_Parsed_Inr [OF Inr [unfolded r], of lines] have
        eq: "evs = evs1 @ evs2" "full' = full2" "self' = self2" "raised = raised2"
        by simp_all
      note one = process_chunk_summary [OF Inr [unfolded r]]
      from Cons.IH [OF rec] have two:
        "self2 = self1\<lparr>conversation_history :=
                    conversation_history self1 @ map assistant_message (complete_texts evs2)\<rparr>"
        "full2 = full1 @ concat (content_texts evs2)"
        "list_all (\<lambda>e. is_content e \<or> is_complete e) evs2"
        "accumulated full1 model evs2"
        by simp_all
      show ?thesis
        unfolding eq
        using one(1,2,3,4) two
        by (simp add: complete_texts_append content_texts_append accumulated_append)
    qed
  qed
qed

lemma consume_no_terminal:
  assumes "\<not> list_ex terminal_frame lines"
  shows "complete_texts (fst (consume model lines st)) = []"
  using assms
proof (induction lines arbitrary: st)
  case Nil
  then show ?case by simp
next
  case (Cons ln lines)
  show ?case
  proof (cases ln)
    case Blank
    with Cons show ?thesis by simp
  next
    case Malformed
    with Cons show ?thesis by simp
  next
    case (LoadsRaised e)
    with Cons show ?thesis by simp
  next
    case (Parsed c)
    obtain full self where st: "st = (full, self)" by (cases st)
    show ?thesis
    proof (cases "process_chunk model (full, self) c")
      case (Inl e)
      with Parsed st show ?thesis by simp
    next
      case (Inr r)
      obtain evs1 full1 self1 where r: "r = (evs1, full1, self1)" by (cases r) auto
      from Cons.prems Parsed have nt: "\<not> terminal_frame (Parsed c)" by simp
      from process_chunk_summary(6) [OF Inr [unfolded r]] nt
      have "complete_texts evs1 = []" by simp
      moreover from Cons have "complete_texts (fst (consume model lines (full1, self1))) = []"
        by simp
      ultimately show ?thesis
        using Parsed st consume_Parsed_Inr [OF Inr [unfolded r], of lines]
        by (simp add: complete_texts_append)
    qed
  qed
qed

text \<open>Lines of the expected shape are all processed.\<close>

lemma process_chunk_ok:
  assumes "frame_ok (Parsed c)"
  shows "\<exists>r. process_chunk model (full, self) c = Inr r"
  using assms
  by (cases c) (auto simp: message_part_def Let_def split: option.splits json.splits)

lemma consume_ok:
  assumes "list_all frame_ok lines"
  shows "snd (snd (consume model lines st)) = None \<and>
         content_texts (fst (consume model lines st)) = concat (map frame_text lines) \<and>
         length (complete_texts (fst (consume model lines st))) =
           length (filter terminal_frame lines)"
  using assms
proof (induction lines arbitrary: st)
  case Nil
  then show ?case by simp
next
  case (Cons ln lines)
  show ?case
  proof (cases ln)
    case Blank
    with Cons show ?thesis by simp
  next
    case Malformed
    with Cons show ?thesis by simp
  next
    case (LoadsRaised e)
    with Cons show ?thesis by simp
  next
    case (Parsed c)
    obtain full self where st: "st = (full, self)" by (cases st)
    from Cons.prems Parsed have ok: "frame_ok (Parsed c)" by simp
    from process_chunk_ok [OF ok] obtain r where
      pc: "process_chunk model (full, self) c = Inr r" by blast
    obtain evs1 full1 self1 where r: "r = (evs1, full1, self1)" by (cases r) auto
    note one = process_chunk_summary [OF pc [unfolded r]]
    from Cons have ih:
      "snd (snd (consume model lines (full1, self1))) = None"
      "content_texts (fst (consume model lines (full1, self1))) = concat (map frame_text lines)"
      "length (complete_texts (fst (consume model lines (full1, self1)))) =
           length (filter terminal_frame lines)"
      by simp_all
    show ?thesis
      using Parsed st consume_Parsed_Inr [OF pc [unfolded r], of lines] one(5,6) ih
      by (simp add: complete_texts_append content_texts_append)
  qed
qed

text \<open>The \<open>Content\<close> events follow the order of the lines.\<close>

lemma consume_texts_prefix:
  "\<exists>rest. concat (map frame_text lines) = content_texts (fst (consume model lines st)) @ rest"
proof (induction lines arbitrary: st)
  case Nil
  then show ?case by simp
next
  case (Cons ln lines)
  show ?case
  proof (cases ln)
    case Blank
    with Cons show ?thesis by simp
  next
    case Malformed
    with Cons show ?thesis by simp
  next
    case (LoadsRaised e)
    with Cons show ?thesis by simp
  next
    case (Parsed c)
    obtain full self where st: "st = (full, self)" by (cases st)
    show ?thesis
    proof (cases "process_chunk model (full, self) c")
      case (Inl e)
      with Parsed st show ?thesis by simp
    next
      case (Inr r)
      obtain evs1 full1 self1 where r: "r = (evs1, full1, self1)" by (cases r) auto
      note one = process_chunk_summary [OF Inr [unfolded r]]
      from Cons [of "(full1, self1)"] obtain rest where
        "concat (map frame_text lines) =
           content_texts (fst (consume model lines (full1, self1))) @ rest" by blast
      then show ?thesis
        using Parsed st consume_Parsed_Inr [OF Inr [unfolded r], of lines] one(5)
        by (simp add: content_texts_append)
    qed
  qed
qed

text \<open>Unparseable lines leave no trace.\<close>

lemma consume_skips_malformed:
  "consume model (filter (\<lambda>ln. ln \<noteq> Malformed) lines) st = consume model lines st"
proof (induction lines arbitrary: st)
  case Nil
  then show ?case by simp
next
  case (Cons ln lines)
  then show ?case
    by (cases ln) (auto split: sum.splits prod.splits)
qed

lemma consume_append_malformed:
  "consume model (pre @ Malformed # post) st = consume model (pre @ post) st"
proof (induction pre arbitrary: st)
  case Nil
  then show ?case by simp
next
  case (Cons ln pre)
  then show ?case
    by (cases ln) (auto split: sum.splits prod.splits)
qed

text \<open>The state in which the backend is called.\<close>

lemma generate_response_unfold:
  assumes sel: "select_model (router_models self) query = Inr (name, rl, task)"
  shows "generate_response ollama self query stream =
     (let self2 = self\<lparr>current_model := Some name,
                        conversation_history := conversation_history self @ [user_message query]\<rparr>;
          selected = ModelSelected name rl (TaskType_value task)
      in case config_temperature self of
           Inl e \<Rightarrow> Inr ([selected, Error e name], self2)
         | Inr temperature \<Rightarrow>
             (let resp = ollama \<lparr>request_model = name, request_messages = prepare_messages self2,
                                 request_stream = stream, request_temperature = temperature\<rparr>;
                  run = consume name (fst resp) ([], self2)
              in Inr (selected # fst run @
                        (case (case snd (snd run) of Some e \<Rightarrow> Some e | None \<Rightarrow> snd resp) of
                           Some e \<Rightarrow> [Error e name]
                         | None \<Rightarrow> []),
                      snd (fst (snd run)))))"
  by (simp add: generate_response_def sel Let_def user_message_def config_temperature_def
      split: sum.splits option.splits prod.splits)


lemma generate_response_select:
  assumes "generate_response ollama self query stream = Inr r"
  shows "\<exists>name rl task. select_model (router_models self) query = Inr (name, rl, task)"
  using assms
  by (cases "select_model (router_models self) query") (auto simp: generate_response_def)

text \<open>The shape of every run of \<open>generate_response\<close>.\<close>

lemma generate_response_shape:
  assumes gen: "generate_response ollama self query stream = Inr (evs, self')"
  shows "\<exists>name rl task body tail.
      select_model (router_models self) query = Inr (name, rl, task) \<and>
      evs = ModelSelected name rl (TaskType_value task) # body @ tail \<and>
      list_all (\<lambda>e. is_content e \<or> is_complete e) body \<and>
      accumulated [] name body \<and>
      (tail = [] \<or> (\<exists>e. tail = [Error e name])) \<and>
      self' = self\<lparr>current_model := Some name,
                     conversation_history := conversation_history self @ [user_message query] @
                        map assistant_message (complete_texts body)\<rparr>"
proof -
  from generate_response_select [OF gen] obtain name rl task where
    sel: "select_model (router_models self) query = Inr (name, rl, task)" by blast
  define self2 where "self2 = self\<lparr>current_model := Some name,
      conversation_history := conversation_history self @ [user_message query]\<rparr>"
  note unf = generate_response_unfold [OF sel, of ollama stream, unfolded Let_def, folded self2_def]
  show ?thesis
  proof (cases "config_temperature self")
    case (Inl e)
    with gen unf have "evs = ModelSelected name rl (TaskType_value task) # [] @ [Error e name]"
      and "self' = self2" by simp_all
    with sel show ?thesis
      by (intro exI [of _ name] exI [of _ rl] exI [of _ task] exI [of _ "[]"]
          exI [of _ "[Error e name]"]) (simp add: self2_def)
  next
    case (Inr temperature)
    let ?resp = "ollama \<lparr>request_model = name,
      request_messages = prepare_messages self2, request_stream = stream,
      request_temperature = temperature\<rparr>"
    obtain body full3 self3 raised where
      run: "consume name (fst ?resp) ([], self2) = (body, (full3, self3), raised)"
      by (cases "consume name (fst ?resp) ([], self2)") auto
    define tail where "tail = (case (case raised of Some e \<Rightarrow> Some e | None \<Rightarrow> snd ?resp) of
                           Some e \<Rightarrow> [Error e name] | None \<Rightarrow> [])"
    from gen unf Inr run have evs: "evs = ModelSelected name rl (TaskType_value task) # body @ tail"
      and self': "self' = self3"
      by (auto simp: tail_def)
    from consume_summary [OF run] have sum:
      "self3 = self2\<lparr>conversation_history :=
                    conversation_history self2 @ map assistant_message (complete_texts body)\<rparr>"
      "list_all (\<lambda>e. is_content e \<or> is_complete e) body"
      "accumulated [] name body"
      by simp_all
    have tl: "tail = [] \<or> (\<exists>e. tail = [Error e name])"
      by (auto simp: tail_def split: option.splits)
    from sel evs self' sum tl show ?thesis
      by (intro exI [of _ name] exI [of _ rl] exI [of _ task] exI [of _ body]
          exI [of _ tail]) (simp add: self2_def)
  qed
qed

lemma chat_unfold:
  assumes "chat ollama srv msg = Inr (evs, srv')"
  shows "chat_manager srv' = chat_manager srv \<and>
         generate_response ollama (nexus srv) msg True = Inr (evs, nexus srv')"
  using assms
  by (auto simp: chat_def split: sum.splits)

text \<open>Counting the events of a run of that shape.\<close>

lemma body_no_error:
  "list_all (\<lambda>e. is_content e \<or> is_complete e) body \<Longrightarrow> filter is_error body = []"
  by (induction body) (auto elim: is_content.elims is_complete.elims)

lemma complete_texts_filter: "length (complete_texts evs) = length (filter is_complete evs)"
  by (induction evs rule: complete_texts.induct) auto

lemma complete_texts_Nil: "(complete_texts evs = []) = (\<not> list_ex is_complete evs)"
  by (induction evs rule: complete_texts.induct) auto


text \<open>A run against a backend that answers with the given lines and ending.\<close>

lemma generate_response_cases:
  assumes gen: "generate_response (\<lambda>req. (lines, failure)) self query stream = Inr (evs, self')"
  shows "\<exists>name rl task.
     select_model (router_models self) query = Inr (name, rl, task) \<and>
     ((\<exists>e. config_temperature self = Inl e \<and>
           evs = [ModelSelected name rl (TaskType_value task), Error e name] \<and>
           self' = self\<lparr>current_model := Some name,
                          conversation_history := conversation_history self @ [user_message query]\<rparr>) \<or>
      (\<exists>temperature body full3 raised.
           config_temperature self = Inr temperature \<and>
           consume name lines
             ([], self\<lparr>current_model := Some name,
                        conversation_history := conversation_history self @ [user_message query]\<rparr>) =
             (body, (full3, self'), raised) \<and>
           evs = ModelSelected name rl (TaskType_value task) # body @
                   (case (case raised of Some e \<Rightarrow> Some e | None \<Rightarrow> failure) of
                      Some e \<Rightarrow> [Error e name] | None \<Rightarrow> [])))"
proof -
  from generate_response_select [OF gen] obtain name rl task where
    sel: "select_model (router_models self) query = Inr (name, rl, task)" by blast
  let ?self2 = "self\<lparr>current_model := Some name,
      conversation_history := conversation_history self @ [user_message query]\<rparr>"
  note unf = generate_response_unfold [OF sel, of "\<lambda>req. (lines, failure)" stream, unfolded Let_def]
  show ?thesis
  proof (cases "config_temperature self")
    case (Inl e)
    with gen unf sel show ?thesis by auto
  next
    case (Inr temperature)
    obtain body full3 self3 raised where
      run: "consume name lines ([], ?self2) = (body, (full3, self3), raised)"
      by (cases "consume name lines ([], ?self2)") auto
    with gen unf Inr sel show ?thesis by (cases raised) auto
  qed
qed

lemma consume_append:
  "consume model (xs @ ys) st =
     (case consume model xs st of
        (evs1, st1, None) \<Rightarrow>
          (case consume model ys st1 of (evs2, st2, raised) \<Rightarrow> (evs1 @ evs2, st2, raised))
      | (evs1, st1, Some e) \<Rightarrow> (evs1, st1, Some e))"
proof (induction xs arbitrary: st)
  case Nil
  then show ?case by (simp split: prod.splits)
next
  case (Cons ln xs)
  then show ?case
    by (cases ln) (auto split: sum.splits prod.splits option.splits)
qed

lemma only_contents:
  assumes "list_all (\<lambda>e. is_content e \<or> is_complete e) body" and "complete_texts body = []"
  shows "list_all is_content body"
  using assms
  by (induction body rule: complete_texts.induct) auto

section \<open>Properties of \<open>generate_response\<close>\<close>

text \<open>
  A call consults the backend at most once, so its outcome is that of a call against a
  backend that gives one fixed response.  The properties below are stated for such a
  backend: \<open>lines\<close> are the lines of the response and \<open>failure\<close> is its ending.
\<close>

lemma generate_response_one_response:
  "\<exists>req. generate_response ollama self query stream =
          generate_response (\<lambda>r. ollama req) self query stream"
proof (cases "select_model (router_models self) query")
  case (Inl e)
  then show ?thesis by (simp add: generate_response_def)
next
  case (Inr r)
  obtain name rl task where r: "r = (name, rl, task)" by (cases r) auto
  note unf = generate_response_unfold [OF Inr [unfolded r]]
  show ?thesis
  proof (cases "config_temperature self")
    case (Inl e)
    then show ?thesis by (simp add: unf)
  next
    case (Inr temperature)
    let ?req = "\<lparr>request_model = name,
      request_messages = prepare_messages
        (self\<lparr>current_model := Some name,
               conversation_history := conversation_history self @ [user_message query]\<rparr>),
      request_stream = stream, request_temperature = temperature\<rparr>"
    have "generate_response ollama self query stream =
          generate_response (\<lambda>r. ollama ?req) self query stream"
      by (simp add: unf Inr Let_def)
    then show ?thesis by blast
  qed
qed

lemma example_select:
  "select_model (router_models example_core) ''hi'' =
     Inr (''deepseek-v3.1:671b-cloud'', ''Core Intelligence Brain'', QUICK)"
  by (simp add: example_core_def example_models_def select_model_default [OF _ _ _ analyze_intent_hi])

text \<open>
  Claim C1, as the code has it.  When the backend delivers no terminal frame, no assistant
  message is committed: the history grows by the user message only, no \<open>Complete\<close> event
  is emitted and the store is not written.  When the stream fails or times out, the
  events end with an \<open>Error\<close> event, the only one.  When the stream is merely closed, its
  lines are of the expected shape and the temperature is configured, no \<open>Error\<close> event is
  emitted at all: the last event is a \<open>Content\<close> event or the \<open>ModelSelected\<close> event.
\<close>

theorem generate_response_without_terminal_frame:
  assumes gen: "generate_response (\<lambda>req. (lines, failure)) self query stream = Inr (evs, self')"
    and no_terminal: "\<not> list_ex terminal_frame lines"
  shows "conversation_history self' = conversation_history self @ [user_message query] \<and>
         \<not> list_ex is_complete evs \<and>
         (failure \<noteq> None \<longrightarrow> length (filter is_error evs) = 1 \<and> is_error (last evs)) \<and>
         (failure = None \<and> list_all frame_ok lines \<and> (\<exists>t. config_temperature self = Inr t) \<longrightarrow>
            \<not> list_ex is_error evs \<and> (is_content (last evs) \<or> is_model_selected (last evs))) \<and>
         (\<forall>srv evs2 srv'. chat (\<lambda>req. (lines, failure)) srv query = Inr (evs2, srv') \<longrightarrow>
            chat_manager srv' = chat_manager srv)"
proof -
  from generate_response_cases [OF gen] obtain name rl task where
    sel: "select_model (router_models self) query = Inr (name, rl, task)" and
    cases: "(\<exists>e. config_temperature self = Inl e \<and>
           evs = [ModelSelected name rl (TaskType_value task), Error e name] \<and>
           self' = self\<lparr>current_model := Some name,
                          conversation_history := conversation_history self @ [user_message query]\<rparr>) \<or>
      (\<exists>temperature body full3 raised.
           config_temperature self = Inr temperature \<and>
           consume name lines
             ([], self\<lparr>current_model := Some name,
                        conversation_history := conversation_history self @ [user_message query]\<rparr>) =
             (body, (full3, self'), raised) \<and>
           evs = ModelSelected name rl (TaskType_value task) # body @
                   (case (case raised of Some e \<Rightarrow> Some e | None \<Rightarrow> failure) of
                      Some e \<Rightarrow> [Error e name] | None \<Rightarrow> []))"
    by blast
  let ?self2 = "self\<lparr>current_model := Some name,
                          conversation_history := conversation_history self @ [user_message query]\<rparr>"
  let ?sel = "ModelSelected name rl (TaskType_value task)"
  have store: "\<forall>srv evs2 srv'. chat (\<lambda>req. (lines, failure)) srv query = Inr (evs2, srv') \<longrightarrow>
            chat_manager srv' = chat_manager srv"
    using chat_unfold by blast
  from cases show ?thesis
  proof (elim disjE exE conjE)
    fix e
    assume "config_temperature self = Inl e" "evs = [?sel, Error e name]" "self' = ?self2"
    with store show ?thesis by simp
  next
    fix temperature body full3 raised
    assume temp: "config_temperature self = Inr temperature"
      and run: "consume name lines ([], ?self2) = (body, (full3, self'), raised)"
      and evs: "evs = ?sel # body @
                   (case (case raised of Some e \<Rightarrow> Some e | None \<Rightarrow> failure) of
                      Some e \<Rightarrow> [Error e name] | None \<Rightarrow> [])"
    from consume_no_terminal [OF no_terminal, of name "([], ?self2)"] run
    have nocomp: "complete_texts body = []" by simp
    from consume_summary [OF run] have
      self': "self' = ?self2\<lparr>conversation_history :=
                    conversation_history ?self2 @ map assistant_message (complete_texts body)\<rparr>"
      and body: "list_all (\<lambda>e. is_content e \<or> is_complete e) body"
      by simp_all
    from body nocomp have contents: "list_all is_content body" by (rule only_contents)
    have noerr: "filter is_error body = []" using body by (rule body_no_error)
    have nc: "\<not> list_ex is_complete body" using nocomp by (simp add: complete_texts_Nil)
    have 1: "conversation_history self' = conversation_history self @ [user_message query]"
      using self' nocomp by simp
    have 2: "\<not> list_ex is_complete evs"
      using nc evs by (auto simp: list_ex_iff split: option.splits)
    have 3: "failure \<noteq> None \<longrightarrow> length (filter is_error evs) = 1 \<and> is_error (last evs)"
      using evs noerr by (auto split: option.splits)
    have 4: "failure = None \<and> list_all frame_ok lines \<and> (\<exists>t. config_temperature self = Inr t) \<longrightarrow>
            \<not> list_ex is_error evs \<and> (is_content (last evs) \<or> is_model_selected (last evs))"
    proof (intro impI)
      assume a: "failure = None \<and> list_all frame_ok lines \<and> (\<exists>t. config_temperature self = Inr t)"
      then have "list_all frame_ok lines" by blast
      from consume_ok [OF this, of name "([], ?self2)"] run have "raised = None" by simp
      with a evs have e: "evs = ?sel # body" by simp
      have "\<not> list_ex is_error evs"
        using noerr e by (simp add: list_ex_iff filter_empty_conv)
      moreover have "is_content (last evs) \<or> is_model_selected (last evs)"
      proof (cases "body = []")
        case True
        with e show ?thesis by simp
      next
        case False
        with contents have "is_content (last body)" by (simp add: list_all_iff)
        with e False show ?thesis by simp
      qed
      ultimately show "\<not> list_ex is_error evs \<and> (is_content (last evs) \<or> is_model_selected (last evs))"
        by blast
    qed
    from 1 2 3 4 store show ?thesis by blast
  qed
qed


lemma example_run:
  "generate_response (\<lambda>req. (lines, failure)) example_core ''hi'' stream =
     (let self2 = example_core\<lparr>current_model := Some ''deepseek-v3.1:671b-cloud'',
                               conversation_history := [user_message ''hi'']\<rparr>;
          run = consume ''deepseek-v3.1:671b-cloud'' lines ([], self2)
      in Inr (ModelSelected ''deepseek-v3.1:671b-cloud'' ''Core Intelligence Brain'' ''quick'' #
              fst run @
                (case (case snd (snd run) of Some e \<Rightarrow> Some e | None \<Rightarrow> failure) of
                   Some e \<Rightarrow> [Error e ''deepseek-v3.1:671b-cloud'']
                 | None \<Rightarrow> []),
              snd (fst (snd run))))"
proof -
  have t: "config_temperature example_core = Inr (JNum 1)"
    by (simp add: config_temperature_def example_core_def)
  have h: "conversation_history example_core = []"
    by (simp add: example_core_def)
  show ?thesis
    by (simp add: generate_response_unfold [OF example_select] t h Let_def split: option.splits)
qed

text \<open>
  The stream of the specification's example, closed after one content frame: the events
  end with the \<open>Content\<close> event, and no \<open>Error\<close> event is emitted.
\<close>

theorem generate_response_closed_stream_counterexample:
  "generate_response (\<lambda>req. ([content_frame ''Hel''], None)) example_core ''hi'' True =
     Inr ([ModelSelected ''deepseek-v3.1:671b-cloud'' ''Core Intelligence Brain'' ''quick'',
           Content ''Hel'' (JBool False)],
          example_core\<lparr>current_model := Some ''deepseek-v3.1:671b-cloud'',
                        conversation_history := [user_message ''hi'']\<rparr>)"
  by (simp add: example_run content_frame_def message_part_def dict_get_def)

theorem generate_response_without_terminal_frame_witness:
  "generate_response (\<lambda>req. ([content_frame ''Hel''], Some (TransportError ''timed out'')))
       example_core ''hi'' True =
     Inr ([ModelSelected ''deepseek-v3.1:671b-cloud'' ''Core Intelligence Brain'' ''quick'',
           Content ''Hel'' (JBool False),
           Error (TransportError ''timed out'') ''deepseek-v3.1:671b-cloud''],
          example_core\<lparr>current_model := Some ''deepseek-v3.1:671b-cloud'',
                        conversation_history := [user_message ''hi'']\<rparr>) \<and>
   \<not> list_ex terminal_frame [content_frame ''Hel''] \<and>
   conversation_history
     (example_core\<lparr>current_model := Some ''deepseek-v3.1:671b-cloud'',
                    conversation_history := [user_message ''hi'']\<rparr>) =
     conversation_history example_core @ [user_message ''hi''] \<and>
   length (filter is_error
     [ModelSelected ''deepseek-v3.1:671b-cloud'' ''Core Intelligence Brain'' ''quick'',
      Content ''Hel'' (JBool False),
      Error (TransportError ''timed out'') ''deepseek-v3.1:671b-cloud'']) = 1"
proof -
  have gen: "generate_response (\<lambda>req. ([content_frame ''Hel''], Some (TransportError ''timed out'')))
       example_core ''hi'' True =
     Inr ([ModelSelected ''deepseek-v3.1:671b-cloud'' ''Core Intelligence Brain'' ''quick'',
           Content ''Hel'' (JBool False),
           Error (TransportError ''timed out'') ''deepseek-v3.1:671b-cloud''],
          example_core\<lparr>current_model := Some ''deepseek-v3.1:671b-cloud'',
                        conversation_history := [user_message ''hi'']\<rparr>)"
    by (simp add: example_run content_frame_def message_part_def dict_get_def)
  have nt: "\<not> list_ex terminal_frame [content_frame ''Hel'']"
    by (simp add: content_frame_def dict_get_def)
  from generate_response_without_terminal_frame [OF gen nt] gen nt
  show ?thesis by blast
qed

lemma consume_terminal_last:
  assumes ok: "list_all frame_ok (pre @ [t])" and nt: "\<not> list_ex terminal_frame pre"
    and t: "terminal_frame t"
    and run: "consume model (pre @ [t]) (full, self) = (body, st, raised)"
  shows "raised = None \<and> (\<exists>contents full'. body = contents @ [Complete full' model] \<and>
           list_all is_content contents)"
proof -
  obtain evs1 full1 self1 raised1 where
    r1: "consume model pre (full, self) = (evs1, (full1, self1), raised1)"
    by (cases "consume model pre (full, self)") auto
  from ok have okpre: "list_all frame_ok pre" and okt: "frame_ok t" by simp_all
  from consume_ok [OF okpre, of model "(full, self)"] r1 have none1: "raised1 = None" by simp
  from consume_no_terminal [OF nt, of model "(full, self)"] r1 have "complete_texts evs1 = []"
    by simp
  moreover from consume_summary [OF r1] have "list_all (\<lambda>e. is_content e \<or> is_complete e) evs1"
    by simp
  ultimately have c1: "list_all is_content evs1" by (rule only_contents [rotated])
  from t obtain chunk where tc: "t = Parsed (JObj chunk)"
    by (cases t rule: terminal_frame.cases) auto
  from process_chunk_ok [of "JObj chunk" model full1 self1] okt tc obtain r where
    pc: "process_chunk model (full1, self1) (JObj chunk) = Inr r" by auto
  obtain evs2 full2 self2 where r: "r = (evs2, full2, self2)" by (cases r) auto
  from process_chunk_Inr [OF pc [unfolded r]] t tc obtain cont where
    mp: "message_part chunk full1 = Inr (cont, full2)" and
    evs2: "evs2 = cont @ [Complete full2 model]"
    by auto
  from message_part_cases [OF mp] have cc: "list_all is_content cont" by auto
  from consume_Parsed_Inr [OF pc [unfolded r], of "[]"] tc
  have r2: "consume model [t] (full1, self1) = (evs2, (full2, self2), None)" by simp
  from run r1 none1 r2 have "body = evs1 @ evs2" "raised = None"
    by (simp_all add: consume_append)
  with evs2 c1 cc show ?thesis
    by (intro conjI exI [of _ "evs1 @ cont"] exI [of _ full2]) simp_all
qed

text \<open>
  Claim C7, as the code has it.  The events of one call are: first the \<open>ModelSelected\<close> event;
  then \<open>Content\<close> and \<open>Complete\<close> events, the \<open>Content\<close> events in the order of the frames
  that carry text; then at most one \<open>Error\<close> event, which is the last event.  When no
  terminal frame arrives there is no \<open>Complete\<close> event.  When the only terminal frame is
  the last line, the stream then closes, the lines are of the expected shape and the
  temperature is configured, the events are \<open>ModelSelected\<close>, \<open>Content\<close> events and one
  \<open>Complete\<close> event, which is last.
\<close>

theorem generate_response_event_order:
  assumes gen: "generate_response (\<lambda>req. (lines, failure)) self query stream = Inr (evs, self')"
  shows "\<exists>name rl task body tail.
      evs = ModelSelected name rl task # body @ tail \<and>
      list_all (\<lambda>e. is_content e \<or> is_complete e) body \<and>
      (tail = [] \<or> (\<exists>e. tail = [Error e name])) \<and>
      (\<exists>rest. concat (map frame_text lines) = content_texts body @ rest) \<and>
      (\<not> list_ex terminal_frame lines \<longrightarrow> list_all is_content body) \<and>
      (\<forall>pre t temperature.
         lines = pre @ [t] \<and> \<not> list_ex terminal_frame pre \<and> terminal_frame t \<and>
         list_all frame_ok lines \<and> failure = None \<and> config_temperature self = Inr temperature \<longrightarrow>
           tail = [] \<and>
           (\<exists>contents full. body = contents @ [Complete full name] \<and> list_all is_content contents))"
proof -
  from generate_response_cases [OF gen] obtain name rl task where
    cases: "(\<exists>e. config_temperature self = Inl e \<and>
           evs = [ModelSelected name rl (TaskType_value task), Error e name] \<and>
           self' = self\<lparr>current_model := Some name,
                          conversation_history := conversation_history self @ [user_message query]\<rparr>) \<or>
      (\<exists>temperature body full3 raised.
           config_temperature self = Inr temperature \<and>
           consume name lines
             ([], self\<lparr>current_model := Some name,
                        conversation_history := conversation_history self @ [user_message query]\<rparr>) =
             (body, (full3, self'), raised) \<and>
           evs = ModelSelected name rl (TaskType_value task) # body @
                   (case (case raised of Some e \<Rightarrow> Some e | None \<Rightarrow> failure) of
                      Some e \<Rightarrow> [Error e name] | None \<Rightarrow> []))"
    by blast
  let ?self2 = "self\<lparr>current_model := Some name,
                          conversation_history := conversation_history self @ [user_message query]\<rparr>"
  let ?sel = "ModelSelected name rl (TaskType_value task)"
  from cases show ?thesis
  proof (elim disjE exE conjE)
    fix e
    assume "config_temperature self = Inl e" and evs: "evs = [?sel, Error e name]"
    then show ?thesis
      by (intro exI [of _ name] exI [of _ rl] exI [of _ "TaskType_value task"]
          exI [of _ "[]"] exI [of _ "[Error e name]"]) simp
  next
    fix temperature body full3 raised
    assume temp: "config_temperature self = Inr temperature"
      and run: "consume name lines ([], ?self2) = (body, (full3, self'), raised)"
      and evs: "evs = ?sel # body @
                   (case (case raised of Some e \<Rightarrow> Some e | None \<Rightarrow> failure) of
                      Some e \<Rightarrow> [Error e name] | None \<Rightarrow> [])"
    let ?tail = "case (case raised of Some e \<Rightarrow> Some e | None \<Rightarrow> failure) of
                      Some e \<Rightarrow> [Error e name] | None \<Rightarrow> []"
    from consume_summary [OF run] have
      body: "list_all (\<lambda>e. is_content e \<or> is_complete e) body" by simp
    have tl: "?tail = [] \<or> (\<exists>e. ?tail = [Error e name])"
      by (auto split: option.splits)
    from consume_texts_prefix [of lines name "([], ?self2)"] run
    have pre: "\<exists>rest. concat (map frame_text lines) = content_texts body @ rest" by simp
    have nt: "\<not> list_ex terminal_frame lines \<longrightarrow> list_all is_content body"
    proof
      assume "\<not> list_ex terminal_frame lines"
      from consume_no_terminal [OF this, of name "([], ?self2)"] run
      have "complete_texts body = []" by simp
      with body show "list_all is_content body" by (rule only_contents)
    qed
    have last: "\<forall>pre t temperature.
         lines = pre @ [t] \<and> \<not> list_ex terminal_frame pre \<and> terminal_frame t \<and>
         list_all frame_ok lines \<and> failure = None \<and> config_temperature self = Inr temperature \<longrightarrow>
           ?tail = [] \<and>
           (\<exists>contents full. body = contents @ [Complete full name] \<and> list_all is_content contents)"
    proof (intro allI impI)
      fix pre t temperature'
      assume a: "lines = pre @ [t] \<and> \<not> list_ex terminal_frame pre \<and> terminal_frame t \<and>
         list_all frame_ok lines \<and> failure = None \<and> config_temperature self = Inr temperature'"
      then have l: "lines = pre @ [t]" and n: "\<not> list_ex terminal_frame pre"
        and t: "terminal_frame t" and ok: "list_all frame_ok (pre @ [t])" and f: "failure = None"
        by blast+
      from consume_terminal_last [OF ok n t run [unfolded l]] f
      show "?tail = [] \<and>
           (\<exists>contents full. body = contents @ [Complete full name] \<and> list_all is_content contents)"
        by auto
    qed
    from evs body tl pre nt last show ?thesis
      by (intro exI [of _ name] exI [of _ rl] exI [of _ "TaskType_value task"]
          exI [of _ body] exI [of _ ?tail]) blast
  qed
qed


text \<open>
  A response without any line, closed normally: the only event is \<open>ModelSelected\<close>; neither
  a \<open>Complete\<close> nor an \<open>Error\<close> event ends the sequence.
\<close>

theorem generate_response_empty_stream_counterexample:
  "generate_response (\<lambda>req. ([], None)) example_core ''hi'' True =
     Inr ([ModelSelected ''deepseek-v3.1:671b-cloud'' ''Core Intelligence Brain'' ''quick''],
          example_core\<lparr>current_model := Some ''deepseek-v3.1:671b-cloud'',
                        conversation_history := [user_message ''hi'']\<rparr>)"
  by (simp add: example_run)

lemma example_hello_run:
  "generate_response
       (\<lambda>req. ([content_frame ''Hel'', content_frame ''lo'', done_frame], None))
       example_core ''hi'' True =
     Inr ([ModelSelected ''deepseek-v3.1:671b-cloud'' ''Core Intelligence Brain'' ''quick'',
           Content ''Hel'' (JBool False), Content ''lo'' (JBool False),
           Complete ''Hello'' ''deepseek-v3.1:671b-cloud''],
          example_core\<lparr>current_model := Some ''deepseek-v3.1:671b-cloud'',
                        conversation_history := [user_message ''hi'', assistant_message ''Hello'']\<rparr>)"
  by (simp add: example_run content_frame_def done_frame_def message_part_def dict_get_def
      assistant_message_def)

theorem generate_response_event_order_witness:
  "generate_response
       (\<lambda>req. ([content_frame ''Hel'', content_frame ''lo'', done_frame], None))
       example_core ''hi'' True =
     Inr ([ModelSelected ''deepseek-v3.1:671b-cloud'' ''Core Intelligence Brain'' ''quick'',
           Content ''Hel'' (JBool False), Content ''lo'' (JBool False),
           Complete ''Hello'' ''deepseek-v3.1:671b-cloud''],
          example_core\<lparr>current_model := Some ''deepseek-v3.1:671b-cloud'',
                        conversation_history := [user_message ''hi'', assistant_message ''Hello'']\<rparr>) \<and>
   (\<exists>name rl task contents full.
      [ModelSelected ''deepseek-v3.1:671b-cloud'' ''Core Intelligence Brain'' ''quick'',
       Content ''Hel'' (JBool False), Content ''lo'' (JBool False),
       Complete ''Hello'' ''deepseek-v3.1:671b-cloud''] =
      ModelSelected name rl task # contents @ [Complete full name] \<and>
      list_all is_content contents)"
proof -
  let ?lines = "[content_frame ''Hel'', content_frame ''lo'', done_frame]"
  note gen = example_hello_run
  have h: "?lines = [content_frame ''Hel'', content_frame ''lo''] @ [done_frame] \<and>
           \<not> list_ex terminal_frame [content_frame ''Hel'', content_frame ''lo''] \<and>
           terminal_frame done_frame \<and> list_all frame_ok ?lines \<and>
           (None :: py_exn option) = None \<and> config_temperature example_core = Inr (JNum 1)"
    by (simp add: content_frame_def done_frame_def dict_get_def config_temperature_def
        example_core_def)
  from generate_response_event_order [OF gen] obtain name rl task body tail where
    evs: "[ModelSelected ''deepseek-v3.1:671b-cloud'' ''Core Intelligence Brain'' ''quick'',
           Content ''Hel'' (JBool False), Content ''lo'' (JBool False),
           Complete ''Hello'' ''deepseek-v3.1:671b-cloud''] = ModelSelected name rl task # body @ tail"
    and last: "\<forall>pre t temperature.
         ?lines = pre @ [t] \<and> \<not> list_ex terminal_frame pre \<and> terminal_frame t \<and>
         list_all frame_ok ?lines \<and> (None :: py_exn option) = None \<and>
         config_temperature example_core = Inr temperature \<longrightarrow>
           tail = [] \<and>
           (\<exists>contents full. body = contents @ [Complete full name] \<and> list_all is_content contents)"
    by (elim exE conjE) (rule that; assumption)
  from last h have "tail = [] \<and>
           (\<exists>contents full. body = contents @ [Complete full name] \<and> list_all is_content contents)"
    by blast
  with evs gen show ?thesis by auto
qed

lemma complete_texts_tail:
  "complete_texts (body @ (case x of Some e \<Rightarrow> [Error e name] | None \<Rightarrow> [])) = complete_texts body"
  by (simp add: complete_texts_append split: option.splits)

text \<open>
  Claim C2, as the code has it.  The assistant messages appended to the in-memory history
  are exactly the texts of the \<open>Complete\<close> events, one message per event, after the user
  message; every \<open>Complete\<close> event carries the selected model name and the concatenation of
  the texts of the \<open>Content\<close> events before it.  When the lines are of the expected shape
  and the temperature is configured, there is one \<open>Complete\<close> event for every terminal
  frame.  The store is not written.  The frames \<open>Hel\<close>, \<open>lo\<close>, \<open>done\<close> yield
  \<open>Content(Hel)\<close>, \<open>Content(lo)\<close>, \<open>Complete(Hello)\<close> and one new assistant message \<open>Hello\<close>.
\<close>

theorem generate_response_commit:
  assumes gen: "generate_response (\<lambda>req. (lines, failure)) self query stream = Inr (evs, self')"
  shows "conversation_history self' =
           conversation_history self @ [user_message query] @
             map assistant_message (complete_texts evs) \<and>
         (\<exists>name rl task. select_model (router_models self) query = Inr (name, rl, task) \<and>
            accumulated [] name evs) \<and>
         (list_all frame_ok lines \<and> (\<exists>t. config_temperature self = Inr t) \<longrightarrow>
            length (filter is_complete evs) = length (filter terminal_frame lines)) \<and>
         (\<forall>srv evs2 srv'. chat (\<lambda>req. (lines, failure)) srv query = Inr (evs2, srv') \<longrightarrow>
            chat_manager srv' = chat_manager srv) \<and>
         (lines = [content_frame ''Hel'', content_frame ''lo'', done_frame] \<and> failure = None \<and>
          (\<exists>t. config_temperature self = Inr t) \<longrightarrow>
            (\<exists>name rl task.
               evs = [ModelSelected name rl task, Content ''Hel'' (JBool False),
                      Content ''lo'' (JBool False), Complete ''Hello'' name]) \<and>
            conversation_history self' =
              conversation_history self @ [user_message query, assistant_message ''Hello''])"
proof -
  from generate_response_cases [OF gen] obtain name rl task where
    sel: "select_model (router_models self) query = Inr (name, rl, task)" and
    cases: "(\<exists>e. config_temperature self = Inl e \<and>
           evs = [ModelSelected name rl (TaskType_value task), Error e name] \<and>
           self' = self\<lparr>current_model := Some name,
                          conversation_history := conversation_history self @ [user_message query]\<rparr>) \<or>
      (\<exists>temperature body full3 raised.
           config_temperature self = Inr temperature \<and>
           consume name lines
             ([], self\<lparr>current_model := Some name,
                        conversation_history := conversation_history self @ [user_message query]\<rparr>) =
             (body, (full3, self'), raised) \<and>
           evs = ModelSelected name rl (TaskType_value task) # body @
                   (case (case raised of Some e \<Rightarrow> Some e | None \<Rightarrow> failure) of
                      Some e \<Rightarrow> [Error e name] | None \<Rightarrow> []))"
    by blast
  let ?self2 = "self\<lparr>current_model := Some name,
                          conversation_history := conversation_history self @ [user_message query]\<rparr>"
  let ?sel = "ModelSelected name rl (TaskType_value task)"
  have store: "\<forall>srv evs2 srv'. chat (\<lambda>req. (lines, failure)) srv query = Inr (evs2, srv') \<longrightarrow>
            chat_manager srv' = chat_manager srv"
    using chat_unfold by blast
  from cases show ?thesis
  proof (elim disjE exE conjE)
    fix e
    assume "config_temperature self = Inl e" "evs = [?sel, Error e name]" "self' = ?self2"
    with store sel show ?thesis by simp
  next
    fix temperature body full3 raised
    assume temp: "config_temperature self = Inr temperature"
      and run: "consume name lines ([], ?self2) = (body, (full3, self'), raised)"
      and evs: "evs = ?sel # body @
                   (case (case raised of Some e \<Rightarrow> Some e | None \<Rightarrow> failure) of
                      Some e \<Rightarrow> [Error e name] | None \<Rightarrow> [])"
    from consume_summary [OF run] have
      self': "self' = ?self2\<lparr>conversation_history :=
                    conversation_history ?self2 @ map assistant_message (complete_texts body)\<rparr>"
      and acc: "accumulated [] name body"
      by simp_all
    have ct: "complete_texts evs = complete_texts body"
      unfolding evs by (simp add: complete_texts_tail)
    have 1: "conversation_history self' =
           conversation_history self @ [user_message query] @
             map assistant_message (complete_texts evs)"
      using self' ct by simp
    have "accumulated [] name evs"
      unfolding evs using acc by (auto simp: accumulated_append split: option.splits)
    with sel have 2: "\<exists>name rl task. select_model (router_models self) query = Inr (name, rl, task) \<and>
            accumulated [] name evs" by blast
    have 3: "list_all frame_ok lines \<and> (\<exists>t. config_temperature self = Inr t) \<longrightarrow>
            length (filter is_complete evs) = length (filter terminal_frame lines)"
    proof
      assume "list_all frame_ok lines \<and> (\<exists>t. config_temperature self = Inr t)"
      then have "list_all frame_ok lines" by blast
      from consume_ok [OF this, of name "([], ?self2)"] run
      have "length (complete_texts body) = length (filter terminal_frame lines)" by simp
      with ct show "length (filter is_complete evs) = length (filter terminal_frame lines)"
        by (simp add: complete_texts_filter [symmetric])
    qed
    have 5: "lines = [content_frame ''Hel'', content_frame ''lo'', done_frame] \<and> failure = None \<and>
          (\<exists>t. config_temperature self = Inr t) \<longrightarrow>
            (\<exists>name rl task.
               evs = [ModelSelected name rl task, Content ''Hel'' (JBool False),
                      Content ''lo'' (JBool False), Complete ''Hello'' name]) \<and>
            conversation_history self' =
              conversation_history self @ [user_message query, assistant_message ''Hello'']"
    proof
      assume a: "lines = [content_frame ''Hel'', content_frame ''lo'', done_frame] \<and> failure = None \<and>
          (\<exists>t. config_temperature self = Inr t)"
      with run have b: "body = [Content ''Hel'' (JBool False), Content ''lo'' (JBool False),
                             Complete ''Hello'' name]" and r: "raised = None"
        by (auto simp: content_frame_def done_frame_def message_part_def dict_get_def)
      from b r a evs have "evs = [?sel, Content ''Hel'' (JBool False),
                      Content ''lo'' (JBool False), Complete ''Hello'' name]" by simp
      moreover from 1 this have "conversation_history self' =
              conversation_history self @ [user_message query, assistant_message ''Hello'']"
        by simp
      ultimately show "(\<exists>name rl task.
               evs = [ModelSelected name rl task, Content ''Hel'' (JBool False),
                      Content ''lo'' (JBool False), Complete ''Hello'' name]) \<and>
            conversation_history self' =
              conversation_history self @ [user_message query, assistant_message ''Hello'']"
        by blast
    qed
    from 1 2 3 store 5 show ?thesis by blast
  qed
qed


text \<open>
  The frames \<open>Hel\<close>, \<open>lo\<close>, \<open>done\<close> sent through the \<open>/chat\<close> endpoint of a server whose store
  holds one conversation: \<open>Complete(Hello)\<close> is emitted, and afterwards the store has no
  message row, no index entry, and the conversation still has no message.
\<close>

theorem chat_leaves_store_counterexample:
  "map_sum id
     (\<lambda>(evs, srv'). (evs, messages (chat_manager srv'), messages_fts (chat_manager srv'),
                      get_conversation (chat_manager srv') 1))
     (chat (\<lambda>req. ([content_frame ''Hel'', content_frame ''lo'', done_frame], None))
        example_server ''hi'') =
   Inr ([ModelSelected ''deepseek-v3.1:671b-cloud'' ''Core Intelligence Brain'' ''quick'',
         Content ''Hel'' (JBool False), Content ''lo'' (JBool False),
         Complete ''Hello'' ''deepseek-v3.1:671b-cloud''],
        [], [],
        Some (\<lparr>conv_id = 1, title = ''chat'', created_at = 0, updated_at = 0, conv_model = None,
                message_count = 0\<rparr>, []))"
  by (simp add: chat_def example_server_def example_hello_run create_conversation_def
      initialize_def next_rowid_def get_conversation_def)

theorem generate_response_commit_witness:
  "generate_response
       (\<lambda>req. ([content_frame ''Hel'', content_frame ''lo'', done_frame], None))
       example_core ''hi'' True =
     Inr ([ModelSelected ''deepseek-v3.1:671b-cloud'' ''Core Intelligence Brain'' ''quick'',
           Content ''Hel'' (JBool False), Content ''lo'' (JBool False),
           Complete ''Hello'' ''deepseek-v3.1:671b-cloud''],
          example_core\<lparr>current_model := Some ''deepseek-v3.1:671b-cloud'',
                        conversation_history := [user_message ''hi'', assistant_message ''Hello'']\<rparr>) \<and>
   list_all frame_ok [content_frame ''Hel'', content_frame ''lo'', done_frame] \<and>
   config_temperature example_core = Inr (JNum 1) \<and>
   length (filter is_complete
     [ModelSelected ''deepseek-v3.1:671b-cloud'' ''Core Intelligence Brain'' ''quick'',
      Content ''Hel'' (JBool False), Content ''lo'' (JBool False),
      Complete ''Hello'' ''deepseek-v3.1:671b-cloud'']) =
     length (filter terminal_frame [content_frame ''Hel'', content_frame ''lo'', done_frame]) \<and>
   conversation_history
     (example_core\<lparr>current_model := Some ''deepseek-v3.1:671b-cloud'',
                    conversation_history := [user_message ''hi'', assistant_message ''Hello'']\<rparr>) =
     conversation_history example_core @ [user_message ''hi'', assistant_message ''Hello'']"
proof -
  have ok: "list_all frame_ok [content_frame ''Hel'', content_frame ''lo'', done_frame]"
    by (simp add: content_frame_def done_frame_def dict_get_def)
  have t: "config_temperature example_core = Inr (JNum 1)"
    by (simp add: config_temperature_def example_core_def)
  from generate_response_commit [OF example_hello_run] ok t example_hello_run
  show ?thesis by blast
qed

text \<open>
  Claim C8, as the code has it.  The lines on which \<open>json.loads\<close> raises \<open>JSONDecodeError\<close>
  are skipped: removing them from the response changes neither the events nor the
  resulting state, and the loop treats the lines before and after such a line as if it
  were not there.
\<close>

theorem generate_response_skips_malformed:
  "generate_response
       (\<lambda>req. (filter (\<lambda>ln. ln \<noteq> Malformed) (fst (ollama req)), snd (ollama req)))
       self query stream =
     generate_response ollama self query stream \<and>
   consume model (pre @ Malformed # post) st = consume model (pre @ post) st"
proof
  show "generate_response
       (\<lambda>req. (filter (\<lambda>ln. ln \<noteq> Malformed) (fst (ollama req)), snd (ollama req)))
       self query stream =
     generate_response ollama self query stream"
  proof (cases "select_model (router_models self) query")
    case (Inl e)
    then show ?thesis by (simp add: generate_response_def)
  next
    case (Inr r)
    obtain name rl task where r: "r = (name, rl, task)" by (cases r) auto
    show ?thesis
      by (simp add: generate_response_unfold [OF Inr [unfolded r]] consume_skips_malformed Let_def
          split: sum.splits option.splits)
  qed
next
  show "consume model (pre @ Malformed # post) st = consume model (pre @ post) st"
    by (rule consume_append_malformed)
qed

theorem generate_response_skips_malformed_witness:
  "generate_response
     (\<lambda>req. ([Malformed, content_frame ''Hel'', Malformed, content_frame ''lo'', done_frame,
               Malformed], None))
     example_core ''hi'' True =
   Inr ([ModelSelected ''deepseek-v3.1:671b-cloud'' ''Core Intelligence Brain'' ''quick'',
         Content ''Hel'' (JBool False), Content ''lo'' (JBool False),
         Complete ''Hello'' ''deepseek-v3.1:671b-cloud''],
        example_core\<lparr>current_model := Some ''deepseek-v3.1:671b-cloud'',
                      conversation_history := [user_message ''hi'', assistant_message ''Hello'']\<rparr>)"
proof -
  let ?ollama = "\<lambda>req :: request. ([Malformed, content_frame ''Hel'', Malformed,
      content_frame ''lo'', done_frame, Malformed], None :: py_exn option)"
  have "(\<lambda>req. (filter (\<lambda>ln. ln \<noteq> Malformed) (fst (?ollama req)), snd (?ollama req))) =
        (\<lambda>req. ([content_frame ''Hel'', content_frame ''lo'', done_frame], None))"
    by (simp add: content_frame_def done_frame_def)
  with generate_response_skips_malformed [of ?ollama example_core "''hi''" True, THEN conjunct1]
    example_hello_run
  show ?thesis by simp
qed

text \<open>
  A response whose second line holds an integer literal too long to convert: \<open>json.loads\<close>
  raises \<open>ValueError\<close>, which the loop does not catch.  The call ends with an \<open>Error\<close>
  event, and the two frames after that line are not processed.
\<close>

theorem generate_response_loads_raises_counterexample:
  "generate_response
     (\<lambda>req. ([content_frame ''Hel'', LoadsRaised ValueError, content_frame ''lo'', done_frame],
             None))
     example_core ''hi'' True =
   Inr ([ModelSelected ''deepseek-v3.1:671b-cloud'' ''Core Intelligence Brain'' ''quick'',
         Content ''Hel'' (JBool False),
         Error ValueError ''deepseek-v3.1:671b-cloud''],
        example_core\<lparr>current_model := Some ''deepseek-v3.1:671b-cloud'',
                      conversation_history := [user_message ''hi'']\<rparr>)"
  by (simp add: example_run content_frame_def message_part_def dict_get_def)

lemma prepare_messages_history:
  "conversation_history a = conversation_history b \<Longrightarrow> prepare_messages a = prepare_messages b"
  by (simp add: prepare_messages_def)

text \<open>The backend is consulted only on a request that carries the prompt.\<close>

lemma generate_response_request_only:
  assumes "\<forall>req. request_messages req =
              prepare_messages (self\<lparr>conversation_history :=
                 conversation_history self @ [user_message query]\<rparr>) \<longrightarrow>
            ollama1 req = ollama2 req"
  shows "generate_response ollama1 self query stream = generate_response ollama2 self query stream"
proof (cases "select_model (router_models self) query")
  case (Inl e)
  then show ?thesis by (simp add: generate_response_def)
next
  case (Inr r)
  obtain name rl task where r: "r = (name, rl, task)" by (cases r) auto
  let ?self2 = "self\<lparr>current_model := Some name,
      conversation_history := conversation_history self @ [user_message query]\<rparr>"
  have p: "prepare_messages ?self2 =
           prepare_messages (self\<lparr>conversation_history :=
                 conversation_history self @ [user_message query]\<rparr>)"
    by (rule prepare_messages_history) simp
  have "\<And>temperature.
     ollama1 \<lparr>request_model = name, request_messages = prepare_messages ?self2,
              request_stream = stream, request_temperature = temperature\<rparr> =
     ollama2 \<lparr>request_model = name, request_messages = prepare_messages ?self2,
              request_stream = stream, request_temperature = temperature\<rparr>"
    using assms p by simp
  then show ?thesis
    by (simp add: generate_response_unfold [OF Inr [unfolded r]] Let_def
        split: sum.splits option.splits)
qed

lemma last10_keeps:
  assumes "length ys \<le> 9"
  shows "x \<in> set (last10 (xs @ x # ys))"
proof -
  let ?k = "length (xs @ x # ys) - 10"
  from assms have "?k \<le> length xs" by simp
  then have "drop ?k (xs @ x # ys) = drop ?k xs @ x # ys" by simp
  then show ?thesis unfolding last10_def by simp
qed

text \<open>
  Claim C10, as the code has it.  After every call the history begins with the old
  history followed by the user message: the user turn is never rolled back.  When the
  call ends with an \<open>Error\<close> event and no \<open>Complete\<close> event was emitted, the history has grown
  by exactly the user message.  When at most eight \<open>Complete\<close> events were emitted, the
  user message is part of the prompt of the next call, and the next call consults the
  backend only on a request that carries this prompt.
\<close>

theorem generate_response_keeps_user_turn:
  assumes gen: "generate_response ollama self query stream = Inr (evs, self')"
  shows "take (Suc (length (conversation_history self))) (conversation_history self') =
           conversation_history self @ [user_message query] \<and>
         (is_error (last evs) \<and> \<not> list_ex is_complete evs \<longrightarrow>
            conversation_history self' = conversation_history self @ [user_message query]) \<and>
         (length (filter is_complete evs) \<le> 8 \<longrightarrow>
            (\<forall>next_query.
               user_message query \<in>
                 set (prepare_messages (self'\<lparr>conversation_history :=
                        conversation_history self' @ [user_message next_query]\<rparr>)))) \<and>
         (\<forall>next_query stream2 ollama1 ollama2.
            (\<forall>req. request_messages req =
                     prepare_messages (self'\<lparr>conversation_history :=
                        conversation_history self' @ [user_message next_query]\<rparr>) \<longrightarrow>
                   ollama1 req = ollama2 req) \<longrightarrow>
            generate_response ollama1 self' next_query stream2 =
              generate_response ollama2 self' next_query stream2)"
proof -
  from generate_response_shape [OF gen] obtain name rl task body tail where
    evs: "evs = ModelSelected name rl (TaskType_value task) # body @ tail" and
    tail: "tail = [] \<or> (\<exists>e. tail = [Error e name])" and
    self': "self' = self\<lparr>current_model := Some name,
                     conversation_history := conversation_history self @ [user_message query] @
                        map assistant_message (complete_texts body)\<rparr>"
    by blast
  from evs tail have ct: "complete_texts evs = complete_texts body"
    by (auto simp: complete_texts_append)
  have h: "conversation_history self' =
             conversation_history self @ user_message query # map assistant_message (complete_texts evs)"
    using self' ct by simp
  have 1: "take (Suc (length (conversation_history self))) (conversation_history self') =
           conversation_history self @ [user_message query]"
    using h by simp
  have 2: "is_error (last evs) \<and> \<not> list_ex is_complete evs \<longrightarrow>
            conversation_history self' = conversation_history self @ [user_message query]"
    using h by (simp add: complete_texts_Nil [symmetric])
  have 3: "length (filter is_complete evs) \<le> 8 \<longrightarrow>
            (\<forall>next_query.
               user_message query \<in>
                 set (prepare_messages (self'\<lparr>conversation_history :=
                        conversation_history self' @ [user_message next_query]\<rparr>)))"
  proof (intro impI allI)
    fix next_query
    assume "length (filter is_complete evs) \<le> 8"
    then have "length (map assistant_message (complete_texts evs) @ [user_message next_query]) \<le> 9"
      by (simp add: complete_texts_filter)
    from last10_keeps [OF this, of "user_message query" "conversation_history self"]
    show "user_message query \<in>
                 set (prepare_messages (self'\<lparr>conversation_history :=
                        conversation_history self' @ [user_message next_query]\<rparr>))"
      by (simp add: prepare_messages_def h)
  qed
  have 4: "\<forall>next_query stream2 ollama1 ollama2.
            (\<forall>req. request_messages req =
                     prepare_messages (self'\<lparr>conversation_history :=
                        conversation_history self' @ [user_message next_query]\<rparr>) \<longrightarrow>
                   ollama1 req = ollama2 req) \<longrightarrow>
            generate_response ollama1 self' next_query stream2 =
              generate_response ollama2 self' next_query stream2"
    using generate_response_request_only by blast
  from 1 2 3 4 show ?thesis by blast
qed

lemma example_nine_run:
  "generate_response (\<lambda>req. (replicate 9 done_frame, Some (TransportError ''timed out'')))
       example_core ''hi'' True =
     Inr (ModelSelected ''deepseek-v3.1:671b-cloud'' ''Core Intelligence Brain'' ''quick'' #
            replicate 9 (Complete [] ''deepseek-v3.1:671b-cloud'') @
            [Error (TransportError ''timed out'') ''deepseek-v3.1:671b-cloud''],
          example_core\<lparr>current_model := Some ''deepseek-v3.1:671b-cloud'',
                        conversation_history :=
                          user_message ''hi'' # replicate 9 (assistant_message [])\<rparr>)"
  by (simp add: example_run done_frame_def message_part_def dict_get_def assistant_message_def
      eval_nat_numeral)

text \<open>
  Nine terminal frames and then a time-out: the call ends with an \<open>Error\<close> event, nine
  assistant messages were committed before, and the prompt of the next call holds the
  system prompt, those nine messages and the new query, but not the failed turn's query.
\<close>

theorem generate_response_nine_commits_counterexample:
  "generate_response (\<lambda>req. (replicate 9 done_frame, Some (TransportError ''timed out'')))
       example_core ''hi'' True =
     Inr (ModelSelected ''deepseek-v3.1:671b-cloud'' ''Core Intelligence Brain'' ''quick'' #
            replicate 9 (Complete [] ''deepseek-v3.1:671b-cloud'') @
            [Error (TransportError ''timed out'') ''deepseek-v3.1:671b-cloud''],
          example_core\<lparr>current_model := Some ''deepseek-v3.1:671b-cloud'',
                        conversation_history :=
                          user_message ''hi'' # replicate 9 (assistant_message [])\<rparr>) \<and>
   prepare_messages
     (example_core\<lparr>current_model := Some ''deepseek-v3.1:671b-cloud'',
                    conversation_history :=
                      (user_message ''hi'' # replicate 9 (assistant_message [])) @
                      [user_message ''again'']\<rparr>) =
     \<lparr>role = ''system'', content = get_system_prompt\<rparr> #
       replicate 9 (assistant_message []) @ [user_message ''again''] \<and>
   user_message ''hi'' \<notin>
     set (prepare_messages
       (example_core\<lparr>current_model := Some ''deepseek-v3.1:671b-cloud'',
                      conversation_history :=
                        (user_message ''hi'' # replicate 9 (assistant_message [])) @
                        [user_message ''again'']\<rparr>))"
proof -
  have p: "prepare_messages
     (example_core\<lparr>current_model := Some ''deepseek-v3.1:671b-cloud'',
                    conversation_history :=
                      (user_message ''hi'' # replicate 9 (assistant_message [])) @
                      [user_message ''again'']\<rparr>) =
     \<lparr>role = ''system'', content = get_system_prompt\<rparr> #
       replicate 9 (assistant_message []) @ [user_message ''again'']"
    by (simp add: prepare_messages_def last10_def eval_nat_numeral)
  have "user_message ''hi'' \<notin>
     set (\<lparr>role = ''system'', content = get_system_prompt\<rparr> #
       replicate 9 (assistant_message []) @ [user_message ''again''])"
    by (simp add: user_message_def assistant_message_def)
  with p example_nine_run show ?thesis by simp
qed

theorem generate_response_keeps_user_turn_witness:
  "generate_response (\<lambda>req. ([content_frame ''Hel''], Some (TransportError ''timed out'')))
       example_core ''hi'' True =
     Inr ([ModelSelected ''deepseek-v3.1:671b-cloud'' ''Core Intelligence Brain'' ''quick'',
           Content ''Hel'' (JBool False),
           Error (TransportError ''timed out'') ''deepseek-v3.1:671b-cloud''],
          example_core\<lparr>current_model := Some ''deepseek-v3.1:671b-cloud'',
                        conversation_history := [user_message ''hi'']\<rparr>) \<and>
   user_message ''hi'' \<in>
     set (prepare_messages
       (example_core\<lparr>current_model := Some ''deepseek-v3.1:671b-cloud'',
                      conversation_history := [user_message ''hi''] @ [user_message ''again'']\<rparr>))"
proof -
  have gen: "generate_response (\<lambda>req. ([content_frame ''Hel''], Some (TransportError ''timed out'')))
       example_core ''hi'' True =
     Inr ([ModelSelected ''deepseek-v3.1:671b-cloud'' ''Core Intelligence Brain'' ''quick'',
           Content ''Hel'' (JBool False),
           Error (TransportError ''timed out'') ''deepseek-v3.1:671b-cloud''],
          example_core\<lparr>current_model := Some ''deepseek-v3.1:671b-cloud'',
                        conversation_history := [user_message ''hi'']\<rparr>)"
    by (simp add: example_run content_frame_def message_part_def dict_get_def)
  have few: "length (filter is_complete
     [ModelSelected ''deepseek-v3.1:671b-cloud'' ''Core Intelligence Brain'' ''quick'',
      Content ''Hel'' (JBool False),
      Error (TransportError ''timed out'') ''deepseek-v3.1:671b-cloud'']) \<le> 8"
    by simp
  from generate_response_keeps_user_turn [OF gen, THEN conjunct2, THEN conjunct2, THEN conjunct1,
      rule_format, OF few, of "''again''"] gen
  show ?thesis by simp
qed

section \<open>Properties of the conversation store\<close>

lemma add_message_value:
  "add_message d now_insert now_update cid rl text model =
     d\<lparr>messages := messages d @
          [\<lparr>msg_id = next_rowid (messages_seq d) (map msg_id (messages d)),
            conversation_id = cid, msg_role = rl, msg_content = text,
            msg_model = model, timestamp = now_insert\<rparr>],
       messages_seq := next_rowid (messages_seq d) (map msg_id (messages d)),
       messages_fts := messages_fts d @ [\<lparr>fts_content = text, fts_conversation_id = cid\<rparr>],
       conversations :=
         map (\<lambda>c. if conv_id c = cid
                   then c\<lparr>updated_at := now_update, message_count := message_count c + 1\<rparr>
                   else c)
             (conversations d)\<rparr>"
  by (simp add: add_message_def insert_message_def insert_fts_def update_conversation_def Let_def)

lemma insort_key_last:
  "\<forall>y \<in> set ys. f y \<le> f x \<Longrightarrow> f a \<le> f x \<Longrightarrow>
   insort_key f a (ys @ [x]) = insort_key f a ys @ [x]"
  by (induction ys) auto

lemma sort_key_last:
  "\<forall>y \<in> set ys. f y \<le> f x \<Longrightarrow> sort_key f (ys @ [x]) = sort_key f ys @ [x]"
proof (induction ys)
  case Nil
  then show ?case by simp
next
  case (Cons a ys)
  then have "sort_key f (ys @ [x]) = sort_key f ys @ [x]" by simp
  moreover have "\<forall>y \<in> set (sort_key f ys). f y \<le> f x" using Cons.prems by simp
  ultimately show ?case using Cons.prems by (simp add: insort_key_last)
qed

lemma find_map_update:
  assumes "find (\<lambda>c. conv_id c = cid) rows = Some conv"
  shows "find (\<lambda>c. conv_id c = cid)
           (map (\<lambda>c. if conv_id c = cid
                     then c\<lparr>updated_at := now, message_count := message_count c + 1\<rparr>
                     else c) rows) =
         Some (conv\<lparr>updated_at := now, message_count := message_count conv + 1\<rparr>)"
  using assms
  by (induction rows) (auto split: if_splits)

lemma find_map_update_None:
  assumes "find (\<lambda>c. conv_id c = cid) rows = None"
  shows "map (\<lambda>c. if conv_id c = cid
                     then c\<lparr>updated_at := now, message_count := message_count c + 1\<rparr>
                     else c) rows = rows"
  using assms
  by (induction rows) (auto split: if_splits)

lemma run_statements_committed:
  "conn_committed (snd (run_statements raises k statements conn)) = conn_committed conn"
  by (induction statements arbitrary: k conn) (auto simp: sql_execute_def split: option.splits)

lemma run_statements_no_raise:
  assumes "\<forall>i < length statements. raises (k + i) = None"
  shows "run_statements raises k statements conn =
           (None, conn\<lparr>conn_view := fold (\<lambda>statement w. statement w) statements (conn_view conn)\<rparr>)"
  using assms
proof (induction statements arbitrary: k conn)
  case Nil
  then show ?case by simp
next
  case (Cons statement rest)
  from Cons.prems have "raises k = None" by force
  moreover from Cons.prems have "\<forall>i < length rest. raises (Suc k + i) = None" by force
  ultimately show ?case using Cons.IH [of "Suc k"] by (simp add: sql_execute_def)
qed

lemma run_statements_raise:
  assumes "run_statements raises k statements conn = (Some e, conn')"
  shows "\<exists>i < length statements. raises (k + i) = Some e"
  using assms
proof (induction statements arbitrary: k conn)
  case Nil
  then show ?case by simp
next
  case (Cons statement rest)
  show ?case
  proof (cases "raises k")
    case None
    with Cons.prems have "run_statements raises (Suc k) rest (sql_execute statement conn) = (Some e, conn')"
      by simp
    from Cons.IH [OF this] obtain i where "i < length rest" "raises (Suc k + i) = Some e" by blast
    then show ?thesis by (intro exI [of _ "Suc i"]) simp
  next
    case (Some e')
    with Cons.prems show ?thesis by (intro exI [of _ 0]) simp
  qed
qed

text \<open>A call of \<open>add_message\<close> commits all of its effects or none.\<close>

lemma add_message_call_atomic:
  "(\<forall>k < 4. raises k = None) \<longrightarrow>
     add_message_call raises d now_insert now_update cid rl text model =
       (None, add_message d now_insert now_update cid rl text model)"
  "(\<exists>k < 4. raises k \<noteq> None) \<longrightarrow>
     (\<exists>e. add_message_call raises d now_insert now_update cid rl text model = (Some e, d))"
proof -
  let ?statements = "[\<lambda>w. insert_message w now_insert cid rl text model,
              \<lambda>w. insert_fts w text cid,
              \<lambda>w. update_conversation w now_update cid]"
  let ?run = "run_statements raises 0 ?statements (sql_connect d)"
  have committed: "conn_committed (snd ?run) = d"
    using run_statements_committed [of raises 0 ?statements "sql_connect d"]
    by (simp add: sql_connect_def)
  show "(\<forall>k < 4. raises k = None) \<longrightarrow>
     add_message_call raises d now_insert now_update cid rl text model =
       (None, add_message d now_insert now_update cid rl text model)"
  proof
    assume a: "\<forall>k < 4. raises k = None"
    then have "\<forall>i < length ?statements. raises (0 + i) = None" by simp
    from run_statements_no_raise [OF this, of "sql_connect d"] a
    show "add_message_call raises d now_insert now_update cid rl text model =
       (None, add_message d now_insert now_update cid rl text model)"
      by (simp add: add_message_call_def add_message_def sql_connect_def sql_commit_def
          sql_close_def)
  qed
  show "(\<exists>k < 4. raises k \<noteq> None) \<longrightarrow>
     (\<exists>e. add_message_call raises d now_insert now_update cid rl text model = (Some e, d))"
  proof
    assume a: "\<exists>k < 4. raises k \<noteq> None"
    obtain r conn where run: "?run = (r, conn)" by (cases ?run) auto
    with committed have c: "sql_close conn = d" by (simp add: sql_close_def)
    show "\<exists>e. add_message_call raises d now_insert now_update cid rl text model = (Some e, d)"
    proof (cases r)
      case (Some e)
      with run c show ?thesis by (simp add: add_message_call_def)
    next
      case None
      have first: "\<forall>i < 3. raises i = None"
      proof (rule ccontr)
        assume "\<not> (\<forall>i < 3. raises i = None)"
        then obtain i where i: "i < 3" "raises i \<noteq> None" by blast
        then have "i = 0 \<or> i = 1 \<or> i = 2" by auto
        with i run None show False
          by (auto simp: numeral_2_eq_2 split: option.splits)
      qed
      with a obtain e where "raises 3 = Some e"
        by (metis less_Suc_eq numeral_3_eq_3 eval_nat_numeral(2) semiring_norm(26,27) option.exhaust
            Suc_numeral)
      with run None c show ?thesis by (simp add: add_message_call_def)
    qed
  qed
qed

lemma example_db_value:
  "example_db =
     \<lparr>conversations =
        [\<lparr>conv_id = 1, title = ''first'', created_at = 0, updated_at = 0, conv_model = None,
          message_count = 0\<rparr>,
         \<lparr>conv_id = 2, title = ''second'', created_at = 1, updated_at = 2, conv_model = None,
          message_count = 1\<rparr>],
      messages =
        [\<lparr>msg_id = 1, conversation_id = 2, msg_role = ''user'', msg_content = ''hello'',
          msg_model = None, timestamp = 2\<rparr>],
      messages_fts = [\<lparr>fts_content = ''hello'', fts_conversation_id = 2\<rparr>],
      conversations_seq = 2, messages_seq = 1\<rparr>"
  by (simp add: example_db_def add_message_value create_conversation_def initialize_def
      next_rowid_def)

text \<open>
  Conversation 2 of the example store was last updated at time 2 and holds a message
  written at time 2.  An append in that same second leaves \<open>updated_at\<close> at 2.  An append
  after the clock was set back to 1 moves \<open>updated_at\<close> back to 1, and the new message
  comes first in the list, not last.
\<close>

theorem add_message_same_second_counterexample:
  "get_conversation example_db 2 =
     Some (\<lparr>conv_id = 2, title = ''second'', created_at = 1, updated_at = 2, conv_model = None,
             message_count = 1\<rparr>, [(''user'', ''hello'', None, 2)]) \<and>
   get_conversation (add_message example_db 2 2 2 ''assistant'' ''hi there'' None) 2 =
     Some (\<lparr>conv_id = 2, title = ''second'', created_at = 1, updated_at = 2, conv_model = None,
             message_count = 2\<rparr>,
           [(''user'', ''hello'', None, 2), (''assistant'', ''hi there'', None, 2)]) \<and>
   get_conversation (add_message example_db 1 1 2 ''assistant'' ''hi there'' None) 2 =
     Some (\<lparr>conv_id = 2, title = ''second'', created_at = 1, updated_at = 1, conv_model = None,
             message_count = 2\<rparr>,
           [(''assistant'', ''hi there'', None, 1), (''user'', ''hello'', None, 2)])"
  by (simp add: example_db_value get_conversation_def add_message_value)

text \<open>
  Claim C5, as the code has it.  For a conversation that exists, \<open>add_message\<close> appends the
  message row and the index entry, increases \<open>message_count\<close> by exactly 1 and sets
  \<open>updated_at\<close> to the time of the update, which is later than the old value exactly when
  that time is.  A following \<open>get_conversation\<close> returns the messages with the new one
  among them, and as the last one when no stored message of the conversation has a later
  timestamp.  A call commits all of these effects when nothing raises, and leaves the
  database as it was when a statement or the commit raises.  The index stays consistent
  with the messages.
\<close>

theorem add_message_existing:
  assumes old: "get_conversation d cid = Some (conv, msgs)"
  shows "(\<exists>conv' msgs'.
            get_conversation (add_message d now_insert now_update cid rl text model) cid =
              Some (conv', msgs') \<and>
            conv' = conv\<lparr>updated_at := now_update, message_count := message_count conv + 1\<rparr> \<and>
            message_count conv' = message_count conv + 1 \<and>
            updated_at conv' = now_update \<and>
            (updated_at conv < updated_at conv') = (updated_at conv < now_update) \<and>
            length msgs' = length msgs + 1 \<and>
            (rl, text, model, now_insert) \<in> set msgs' \<and>
            ((\<forall>m \<in> set (messages d). conversation_id m = cid \<longrightarrow> timestamp m \<le> now_insert) \<longrightarrow>
               msgs' = msgs @ [(rl, text, model, now_insert)])) \<and>
         (\<exists>rowid. messages (add_message d now_insert now_update cid rl text model) =
            messages d @ [\<lparr>msg_id = rowid, conversation_id = cid, msg_role = rl,
                           msg_content = text, msg_model = model, timestamp = now_insert\<rparr>]) \<and>
         messages_fts (add_message d now_insert now_update cid rl text model) =
            messages_fts d @ [\<lparr>fts_content = text, fts_conversation_id = cid\<rparr>] \<and>
         (index_consistent d \<longrightarrow>
            index_consistent (add_message d now_insert now_update cid rl text model)) \<and>
         (\<forall>raises.
            ((\<forall>k < 4. raises k = None) \<longrightarrow>
               add_message_call raises d now_insert now_update cid rl text model =
                 (None, add_message d now_insert now_update cid rl text model)) \<and>
            ((\<exists>k < 4. raises k \<noteq> None) \<longrightarrow>
               (\<exists>e. add_message_call raises d now_insert now_update cid rl text model =
                      (Some e, d))))"
proof -
  from old obtain c where f: "find (\<lambda>c. conv_id c = cid) (conversations d) = Some c"
    by (auto simp: get_conversation_def split: option.splits)
  with old have conv: "conv = c" and
    msgs: "msgs = map (\<lambda>m. (msg_role m, msg_content m, msg_model m, timestamp m))
                    (sort_key timestamp (filter (\<lambda>m. conversation_id m = cid) (messages d)))"
    by (simp_all add: get_conversation_def)
  let ?d' = "add_message d now_insert now_update cid rl text model"
  let ?row = "\<lparr>msg_id = next_rowid (messages_seq d) (map msg_id (messages d)),
               conversation_id = cid, msg_role = rl, msg_content = text, msg_model = model,
               timestamp = now_insert\<rparr>"
  let ?old = "filter (\<lambda>m. conversation_id m = cid) (messages d)"
  let ?view = "\<lambda>m. (msg_role m, msg_content m, msg_model m, timestamp m)"
  let ?msgs' = "map ?view (sort_key timestamp (?old @ [?row]))"
  let ?conv' = "conv\<lparr>updated_at := now_update, message_count := message_count conv + 1\<rparr>"
  have get: "get_conversation ?d' cid = Some (?conv', ?msgs')"
    using find_map_update [OF f, of now_update]
    by (simp add: get_conversation_def add_message_value conv)
  have len: "length ?msgs' = length msgs + 1"
    by (simp add: msgs)
  have "?row \<in> set (sort_key timestamp (?old @ [?row]))" by simp
  then have "?view ?row \<in> ?view ` set (sort_key timestamp (?old @ [?row]))" by (rule imageI)
  then have mem: "(rl, text, model, now_insert) \<in> set ?msgs'" by simp
  have last: "(\<forall>m \<in> set (messages d). conversation_id m = cid \<longrightarrow> timestamp m \<le> now_insert) \<longrightarrow>
               ?msgs' = msgs @ [(rl, text, model, now_insert)]"
  proof
    assume "\<forall>m \<in> set (messages d). conversation_id m = cid \<longrightarrow> timestamp m \<le> now_insert"
    then have "\<forall>y \<in> set ?old. timestamp y \<le> timestamp ?row" by simp
    then have "sort_key timestamp (?old @ [?row]) = sort_key timestamp ?old @ [?row]"
      by (rule sort_key_last)
    then show "?msgs' = msgs @ [(rl, text, model, now_insert)]" by (simp add: msgs)
  qed
  have 1: "\<exists>conv' msgs'.
            get_conversation ?d' cid = Some (conv', msgs') \<and>
            conv' = conv\<lparr>updated_at := now_update, message_count := message_count conv + 1\<rparr> \<and>
            message_count conv' = message_count conv + 1 \<and>
            updated_at conv' = now_update \<and>
            (updated_at conv < updated_at conv') = (updated_at conv < now_update) \<and>
            length msgs' = length msgs + 1 \<and>
            (rl, text, model, now_insert) \<in> set msgs' \<and>
            ((\<forall>m \<in> set (messages d). conversation_id m = cid \<longrightarrow> timestamp m \<le> now_insert) \<longrightarrow>
               msgs' = msgs @ [(rl, text, model, now_insert)])"
    using get len mem last
    by (intro exI [of _ ?conv'] exI [of _ ?msgs']) simp
  have 2: "\<exists>rowid. messages ?d' =
            messages d @ [\<lparr>msg_id = rowid, conversation_id = cid, msg_role = rl,
                           msg_content = text, msg_model = model, timestamp = now_insert\<rparr>]"
    by (simp add: add_message_value)
  have 3: "messages_fts ?d' =
            messages_fts d @ [\<lparr>fts_content = text, fts_conversation_id = cid\<rparr>]"
    by (simp add: add_message_value)
  have 4: "index_consistent d \<longrightarrow> index_consistent ?d'"
    by (simp add: index_consistent_def add_message_value)
  have 5: "\<forall>raises.
            ((\<forall>k < 4. raises k = None) \<longrightarrow>
               add_message_call raises d now_insert now_update cid rl text model = (None, ?d')) \<and>
            ((\<exists>k < 4. raises k \<noteq> None) \<longrightarrow>
               (\<exists>e. add_message_call raises d now_insert now_update cid rl text model =
                      (Some e, d)))"
    by (intro allI conjI) (rule add_message_call_atomic)+
  from 1 2 3 4 5 show ?thesis by blast
qed

theorem add_message_existing_witness:
  "get_conversation example_db 2 =
     Some (\<lparr>conv_id = 2, title = ''second'', created_at = 1, updated_at = 2, conv_model = None,
             message_count = 1\<rparr>, [(''user'', ''hello'', None, 2)]) \<and>
   get_conversation (add_message example_db 5 6 2 ''assistant'' ''hi there'' None) 2 =
     Some (\<lparr>conv_id = 2, title = ''second'', created_at = 1, updated_at = 6, conv_model = None,
             message_count = 2\<rparr>,
           [(''user'', ''hello'', None, 2), (''assistant'', ''hi there'', None, 5)]) \<and>
   snd (add_message_call (\<lambda>k. if k = 2 then Some OperationalError else None)
          example_db 5 6 2 ''assistant'' ''hi there'' None) = example_db"
proof -
  have old: "get_conversation example_db 2 =
     Some (\<lparr>conv_id = 2, title = ''second'', created_at = 1, updated_at = 2, conv_model = None,
             message_count = 1\<rparr>, [(''user'', ''hello'', None, 2)])"
    by (simp add: example_db_value get_conversation_def)
  have clock: "\<forall>m \<in> set (messages example_db). conversation_id m = 2 \<longrightarrow> timestamp m \<le> 5"
    by (simp add: example_db_value)
  have fails: "\<exists>k < 4. (if k = (2 :: nat) then Some OperationalError else None) \<noteq> None"
    by (intro exI [of _ "2 :: nat"]) simp
  note inst = add_message_existing [OF old, of 5 6 "''assistant''" "''hi there''" None]
  from inst clock have "get_conversation (add_message example_db 5 6 2 ''assistant'' ''hi there'' None) 2 =
     Some (\<lparr>conv_id = 2, title = ''second'', created_at = 1, updated_at = 2, conv_model = None,
             message_count = 1\<rparr>\<lparr>updated_at := 6, message_count := 1 + 1\<rparr>,
           [(''user'', ''hello'', None, 2)] @ [(''assistant'', ''hi there'', None, 5)])"
    by auto
  moreover from inst fails have "\<exists>e. add_message_call (\<lambda>k. if k = 2 then Some OperationalError else None)
          example_db 5 6 2 ''assistant'' ''hi there'' None = (Some e, example_db)"
    by blast
  ultimately show ?thesis using old by auto
qed

text \<open>
  On an empty database, a message for conversation 1 is added; the conversation is still
  not found.
\<close>

theorem add_message_creates_no_conversation_counterexample:
  "get_conversation (add_message initialize 5 5 1 ''user'' ''hello'' None) 1 = None"
  by (simp add: get_conversation_def add_message_value initialize_def Let_def)

text \<open>
  Claim C9, as the code has it.  For an id without a conversation row, \<open>add_message\<close> stores
  the message row and the index entry but creates no conversation: the table of
  conversations is unchanged and \<open>get_conversation\<close> still returns not-found.
\<close>

theorem add_message_missing_conversation:
  assumes "get_conversation d cid = None"
  shows "get_conversation (add_message d now_insert now_update cid rl text model) cid = None \<and>
         conversations (add_message d now_insert now_update cid rl text model) = conversations d \<and>
         (\<exists>rowid. messages (add_message d now_insert now_update cid rl text model) =
            messages d @ [\<lparr>msg_id = rowid, conversation_id = cid, msg_role = rl,
                           msg_content = text, msg_model = model, timestamp = now_insert\<rparr>]) \<and>
         messages_fts (add_message d now_insert now_update cid rl text model) =
            messages_fts d @ [\<lparr>fts_content = text, fts_conversation_id = cid\<rparr>]"
proof -
  from assms have f: "find (\<lambda>c. conv_id c = cid) (conversations d) = None"
    by (simp add: get_conversation_def split: option.splits)
  have c: "conversations (add_message d now_insert now_update cid rl text model) = conversations d"
    using find_map_update_None [OF f, of now_update] by (simp add: add_message_value Let_def)
  with f have "get_conversation (add_message d now_insert now_update cid rl text model) cid = None"
    by (simp add: get_conversation_def)
  with c show ?thesis by (simp add: add_message_value Let_def)
qed

theorem add_message_missing_conversation_witness:
  "get_conversation initialize 7 = None \<and>
   get_conversation (add_message initialize 5 5 7 ''user'' ''hello'' None) 7 = None \<and>
   conversations (add_message initialize 5 5 7 ''user'' ''hello'' None) = [] \<and>
   messages_fts (add_message initialize 5 5 7 ''user'' ''hello'' None) =
     [\<lparr>fts_content = ''hello'', fts_conversation_id = 7\<rparr>]"
proof -
  have none: "get_conversation initialize 7 = None"
    by (simp add: get_conversation_def initialize_def)
  from add_message_missing_conversation [OF none, of 5 5 "''user''" "''hello''" None] none
  show ?thesis by (simp add: initialize_def)
qed





















end
